theory Spec2Isabelle
  imports Complex_Main
begin

section \<open>Data model\<close>

text \<open>
  The repository is one script, \<^verbatim>\<open>src/fontfit.js\<close>, holding two variants of the same
  utility: the first measures the target element in place (lines 5-119), the second
  measures an offscreen clone (lines 124-256). Functions that the two variants share
  word for word are modelled once; functions that differ carry the suffix
  \<open>_inplace\<close> or \<open>_clone\<close>, and a \<open>variant\<close> argument selects between them.
\<close>

datatype variant = InPlace | Clone

text \<open>A thrown JavaScript exception: an \<^verbatim>\<open>Error\<close> object with its message.\<close>

datatype js_error = Error string

text \<open>
  A DOM element, as far as the script touches it: the inline \<^verbatim>\<open>style.fontSize\<close> in
  pixels (\<open>None\<close> when no inline size is set), the other inline style properties by
  name, and the \<^verbatim>\<open>data-fitted-font-px\<close> attribute. The attribute holds
  \<^verbatim>\<open>String(best)\<close>; the model keeps the number that the string prints.

  JavaScript numbers are IEEE-754 doubles. The numbers the caller passes
  (\<open>minPx\<close>, \<open>maxPx\<close>, \<open>debounceMs\<close>) and the size the search returns are modelled
  as reals: they stand for finite doubles, NaN and the infinities are left out. The
  loop variables \<open>lo\<close>, \<open>hi\<close>, \<open>mid\<close> and \<open>best\<close> hold whole numbers and are
  modelled as integers, with every sum and difference the script computes on them
  rounded to the nearest double by \<open>rnd\<close> below. \<^verbatim>\<open>Math.floor\<close>, \<^verbatim>\<open>Math.max\<close> and
  the halving in \<^verbatim>\<open>(lo + hi) / 2\<close> are exact on doubles. The exponent range of a
  double is not modelled, so the model follows the script for sizes below
  \<open>2 ^ 1023\<close>, where no sum overflows.
\<close>

record element =
  fontSize :: "int option"
  style :: "string \<rightharpoonup> string"
  fittedFontPx :: "real option"

text \<open>
  The layout engine, for the current content and geometry of the page. The script
  only asks it for box sizes: the container's client box and bounding rectangle, and
  the scroll box of the target (or of the offscreen probe, inside a measuring box of a
  given width) at the font size the element has. A read of the target or the probe
  may throw. A read may also run code of the page before it returns (a getter, as a
  test double has): \<open>reentrant\<close> says that the first read of a measurement, that of
  the container's client width, runs code that calls \<^verbatim>\<open>refit\<close> again.
\<close>

record layout =
  clientWidth :: int
  clientHeight :: int
  rectWidth :: real
  inheritedFontPx :: int
  reentrant :: bool
  scrollWidth :: "int \<Rightarrow> js_error + int"
  scrollHeight :: "int \<Rightarrow> js_error + int"
  probeScrollHeight :: "int \<Rightarrow> int \<Rightarrow> js_error + int"

text \<open>The offscreen measuring box of the clone variant, a child of the document body.\<close>

record measure_box =
  box_width :: int
  box_style :: "string \<rightharpoonup> string"
  box_child :: "element option"

text \<open>
  A record of the layout work done, kept to state which operations ran:
  one entry per probe of a candidate size, per box or clone created and per box
  removed.
\<close>

datatype dom_op = Probe int | CreateBox | CloneNode | RemoveBox

text \<open>A value stored under a property the script does not read.\<close>

datatype jsval = Num real | Bool bool | Str string

text \<open>
  The options object of the caller and the \<^verbatim>\<open>opts\<close> object after
  \<^verbatim>\<open>Object.assign\<close>. The six properties the script names are fields, typed as the
  script uses them (\<open>None\<close>: the property is absent from the caller's object);
  properties under any other name are kept by name in \<open>o_extra\<close> and \<open>extra\<close>.
  The first variant has no default for \<^verbatim>\<open>refitOnFontLoad\<close> and never reads it;
  \<^verbatim>\<open>Object.assign\<close> still copies it.
\<close>

record options =
  o_minPx :: "real option"
  o_maxPx :: "real option"
  o_observeMutations :: "bool option"
  o_observeResize :: "bool option"
  o_debounceMs :: "real option"
  o_refitOnFontLoad :: "bool option"
  o_extra :: "string \<rightharpoonup> jsval"

record opts =
  minPx :: real
  maxPx :: real
  observeMutations :: bool
  observeResize :: bool
  debounceMs :: real
  refitOnFontLoad :: "bool option"
  extra :: "string \<rightharpoonup> jsval"

text \<open>
  An observer variable of the closure (\<^verbatim>\<open>let ro, mo\<close>): never assigned, observing,
  or disconnected.
\<close>

datatype observer = Unset | Observing | Disconnected

text \<open>
  Everything one call of \<^verbatim>\<open>fitFontToContainer\<close> owns or has scheduled: the closure
  variables (\<open>opts\<close>, \<open>busy\<close>, the debounce timer \<open>t\<close>, \<open>ro\<close>, \<open>mo\<close>), the
  window listener, the pending animation-frame callback and font-load continuation,
  and the part of the page it mutates (the target element and the measuring boxes
  left under the document body). \<open>inProgress\<close> is a ghost counter of the refit cycles
  that have passed the busy guard and not yet reached the \<^verbatim>\<open>finally\<close> block, and
  \<open>peak\<close> is the highest value it has had.
\<close>

record session =
  opts :: opts
  busy :: bool
  timer :: "real option"
  ro :: observer
  mo :: observer
  winResize :: bool
  raf :: bool
  fontsThen :: bool
  target :: element
  body :: "measure_box list"
  trace :: "dom_op list"
  inProgress :: nat
  peak :: nat

text \<open>What the host environment offers (\<^verbatim>\<open>'ResizeObserver' in window\<close>, ...).\<close>

record host =
  hasResizeObserver :: bool
  hasMutationObserver :: bool
  hasFontsReady :: bool

section \<open>Fit oracle and size search\<close>

text \<open>\<^verbatim>\<open>setFontSizePx\<close> (lines 20-22 and 129-131).\<close>

definition setFontSizePx :: "element \<Rightarrow> real \<Rightarrow> element" where
  "setFontSizePx el px = el\<lparr>fontSize := Some (max 1 \<lfloor>px\<rfloor>)\<rparr>"

text \<open>The font size the layout engine uses for an element.\<close>

definition usedFontPx :: "layout \<Rightarrow> element \<Rightarrow> int" where
  "usedFontPx L el = (case fontSize el of Some n \<Rightarrow> n | None \<Rightarrow> inheritedFontPx L)"

text \<open>
  \<^verbatim>\<open>elementFits\<close> (lines 14-18): width first, height only when the width fits
  (\<^verbatim>\<open>&&\<close> short-circuits).
\<close>

definition elementFits :: "layout \<Rightarrow> element \<Rightarrow> js_error + bool" where
  "elementFits L el =
     (case scrollWidth L (usedFontPx L el) of
        Inl e \<Rightarrow> Inl e
      | Inr w \<Rightarrow>
          if w \<le> clientWidth L then
            (case scrollHeight L (usedFontPx L el) of
               Inl e \<Rightarrow> Inl e
             | Inr h \<Rightarrow> Inr (h \<le> clientHeight L))
          else Inr False)"

text \<open>
  Rounding of a whole number to the nearest double, ties to the even significand.
  \<open>ulp a\<close> is the distance between neighbouring doubles at magnitude \<open>a\<close>: 1 below
  \<open>2 ^ 53 = 9007199254740992\<close>, and doubling with every further binary digit.
\<close>

function ulp :: "nat \<Rightarrow> nat" where
  "ulp a = (if a < 9007199254740992 then 1 else 2 * ulp (a div 2))"
  by pat_completeness auto
termination
  by (relation "measure (\<lambda>a. a)") auto

definition rnd :: "int \<Rightarrow> int" where
  "rnd x =
     (let a = nat \<bar>x\<bar>; u = ulp a; q = a div u; r = a mod u;
          m = (if 2 * r < u then q * u
               else if u < 2 * r then (q + 1) * u
               else if even q then q * u else (q + 1) * u)
      in sgn x * int m)"

text \<open>
  The search loop (lines 44-56 and 178-189). Both variants run the same loop around
  their own probe of the candidate \<open>mid\<close>; the probe returns whether \<open>mid\<close> fits, or
  the exception it threw, and the state it left. The loop need not end: the result
  is \<open>None\<close> when it runs forever.
\<close>

partial_function (option) search ::
  "(int \<Rightarrow> 'st \<Rightarrow> (js_error + bool) \<times> 'st) \<Rightarrow> int \<Rightarrow> int \<Rightarrow> int \<Rightarrow> 'st
     \<Rightarrow> ((js_error + int) \<times> 'st) option" where
  "search probe lo hi best st =
     (if lo \<le> hi then
        (let mid = rnd (lo + hi) div 2 in
         case probe mid st of
           (Inl e, st') \<Rightarrow> Some (Inl e, st')
         | (Inr fits, st') \<Rightarrow>
             if fits then search probe (rnd (mid + 1)) hi mid st'
             else search probe lo (rnd (mid - 1)) best st')
      else Some (Inr best, st))"

text \<open>
  One pass of the loop body of the in-place variant (lines 46-50): set the target's
  size, read \<^verbatim>\<open>scrollHeight\<close> to force a reflow, then test the fit.
\<close>

definition probe_inplace :: "layout \<Rightarrow> int \<Rightarrow> session \<Rightarrow> (js_error + bool) \<times> session" where
  "probe_inplace L mid s =
     (let s1 = s\<lparr>target := setFontSizePx (target s) (of_int mid),
                 trace := trace s @ [Probe mid]\<rparr>
      in case scrollHeight L (usedFontPx L (target s1)) of
           Inl e \<Rightarrow> (Inl e, s1)
         | Inr _ \<Rightarrow> (elementFits L (target s1), s1))"

text \<open>
  Lines 31-56 of the in-place variant: the bounds, the style changes that make the
  target measurable, and the loop. The result is the loop's final \<open>best\<close>.
\<close>

definition searchLoop_inplace ::
  "layout \<Rightarrow> real \<Rightarrow> real \<Rightarrow> session \<Rightarrow> ((js_error + int) \<times> session) option" where
  "searchLoop_inplace L min_px max_px s =
     (let lo = max 1 \<lfloor>min_px\<rfloor>;
          hi = \<lfloor>max_px\<rfloor>;
          best = lo;
          s1 = s\<lparr>target := (target s)\<lparr>style := (style (target s))
                 (''display'' \<mapsto> ''block'', ''width'' \<mapsto> ''100%'',
                  ''maxWidth'' \<mapsto> ''100%'')\<rparr>\<rparr>
      in search (probe_inplace L) lo hi best s1)"

text \<open>\<^verbatim>\<open>computeBestFontSize\<close>, in-place variant (lines 24-61).\<close>

definition computeBestFontSize_inplace ::
  "layout \<Rightarrow> real \<Rightarrow> real \<Rightarrow> session \<Rightarrow> ((js_error + real) \<times> session) option" where
  "computeBestFontSize_inplace L min_px max_px s =
     (let cw = clientWidth L; ch = clientHeight L in
      if cw \<le> 0 \<or> ch \<le> 0 then Some (Inr min_px, s)
      else
        (case searchLoop_inplace L min_px max_px s of
           None \<Rightarrow> None
         | Some (Inl e, s') \<Rightarrow> Some (Inl e, s')
         | Some (Inr best, s') \<Rightarrow> Some (Inr (of_int (rnd (best - 10))), s')))"

text \<open>
  \<^verbatim>\<open>makeMeasureBox\<close> (lines 133-146): the box is created with the container's
  width and appended to the document body.
\<close>

definition makeMeasureBox :: "layout \<Rightarrow> session \<Rightarrow> measure_box \<times> session" where
  "makeMeasureBox L s =
     (let box = \<lparr>box_width = max 0 \<lfloor>rectWidth L\<rfloor>,
                 box_style = [''position'' \<mapsto> ''absolute'', ''left'' \<mapsto> ''-99999px'',
                              ''top'' \<mapsto> ''0'', ''pointerEvents'' \<mapsto> ''none'',
                              ''visibility'' \<mapsto> ''hidden'', ''overflow'' \<mapsto> ''visible''],
                 box_child = None\<rparr>
      in (box, s\<lparr>body := body s @ [box], trace := trace s @ [CreateBox]\<rparr>))"

text \<open>
  \<^verbatim>\<open>cloneForMeasure\<close> (lines 148-162): a deep copy of the target with its
  layout-affecting styles reset, appended to the box.
\<close>

definition cloneForMeasure :: "element \<Rightarrow> measure_box \<Rightarrow> element \<times> measure_box" where
  "cloneForMeasure tgt measureBox =
     (let clone = tgt\<lparr>style := (style tgt)
                    (''margin'' \<mapsto> ''0'', ''padding'' \<mapsto> ''0'', ''border'' \<mapsto> ''0'',
                     ''whiteSpace'' \<mapsto> ''normal'', ''wordBreak'' \<mapsto> ''break-word'',
                     ''overflow'' \<mapsto> ''visible'', ''display'' \<mapsto> ''block'',
                     ''maxWidth'' \<mapsto> ''100%'', ''width'' \<mapsto> ''100%'')\<rparr>
      in (clone, measureBox\<lparr>box_child := Some clone\<rparr>))"

text \<open>
  One pass of the loop body of the clone variant (lines 180-183). The local
  \<^verbatim>\<open>probe\<close> travels with the state; \<open>w\<close> is the width of its box and \<open>ch\<close> the
  container height read before the loop.
\<close>

definition probe_clone ::
  "layout \<Rightarrow> int \<Rightarrow> int \<Rightarrow> int \<Rightarrow> element \<times> session
     \<Rightarrow> (js_error + bool) \<times> (element \<times> session)" where
  "probe_clone L w ch mid ps =
     (let probe = setFontSizePx (fst ps) (of_int mid);
          s1 = (snd ps)\<lparr>trace := trace (snd ps) @ [Probe mid]\<rparr>
      in case probeScrollHeight L w (usedFontPx L probe) of
           Inl e \<Rightarrow> (Inl e, (probe, s1))
         | Inr h \<Rightarrow> (Inr (h \<le> ch), (probe, s1)))"

text \<open>
  Lines 170-189 of the clone variant: box, clone, bounds and loop. The box is the
  last child of the body while the loop runs, and its child is the probe the loop
  resizes; the model writes the probe back into the box when the loop ends.
\<close>

definition searchLoop_clone ::
  "layout \<Rightarrow> real \<Rightarrow> real \<Rightarrow> session \<Rightarrow> ((js_error + int) \<times> session) option" where
  "searchLoop_clone L min_px max_px s =
     (let ch = clientHeight L;
          (box0, s1) = makeMeasureBox L s;
          (probe, measureBox) = cloneForMeasure (target s1) box0;
          s2 = s1\<lparr>body := body s @ [measureBox], trace := trace s1 @ [CloneNode]\<rparr>;
          lo = max 1 \<lfloor>min_px\<rfloor>;
          hi = \<lfloor>max_px\<rfloor>;
          best = lo
      in case search (probe_clone L (box_width measureBox) ch) lo hi best (probe, s2) of
           None \<Rightarrow> None
         | Some (r, (probe', s3)) \<Rightarrow>
             Some (r, s3\<lparr>body := body s @ [measureBox\<lparr>box_child := Some probe'\<rparr>]\<rparr>))"

text \<open>
  \<^verbatim>\<open>computeBestFontSize\<close>, clone variant (lines 164-194). A throw inside the loop
  skips \<^verbatim>\<open>measureBox.remove()\<close>, so the box stays under the body.
\<close>

definition computeBestFontSize_clone ::
  "layout \<Rightarrow> real \<Rightarrow> real \<Rightarrow> session \<Rightarrow> ((js_error + real) \<times> session) option" where
  "computeBestFontSize_clone L min_px max_px s =
     (let cw = clientWidth L; ch = clientHeight L in
      if cw \<le> 0 \<or> ch \<le> 0 then Some (Inr min_px, s)
      else
        (case searchLoop_clone L min_px max_px s of
           None \<Rightarrow> None
         | Some (Inl e, s') \<Rightarrow> Some (Inl e, s')
         | Some (Inr best, s') \<Rightarrow>
             Some (Inr (of_int best), s'\<lparr>body := body s, trace := trace s' @ [RemoveBox]\<rparr>)))"

definition searchLoop ::
  "variant \<Rightarrow> layout \<Rightarrow> real \<Rightarrow> real \<Rightarrow> session \<Rightarrow> ((js_error + int) \<times> session) option" where
  "searchLoop v L min_px max_px s =
     (case v of InPlace \<Rightarrow> searchLoop_inplace L min_px max_px s
              | Clone \<Rightarrow> searchLoop_clone L min_px max_px s)"

definition computeBestFontSize ::
  "variant \<Rightarrow> layout \<Rightarrow> real \<Rightarrow> real \<Rightarrow> session \<Rightarrow> ((js_error + real) \<times> session) option" where
  "computeBestFontSize v L min_px max_px s =
     (case v of InPlace \<Rightarrow> computeBestFontSize_inplace L min_px max_px s
              | Clone \<Rightarrow> computeBestFontSize_clone L min_px max_px s)"

text \<open>
  The answer of the fit oracle at font size \<open>n\<close>, as one pass of the loop body reads
  it from the layout engine: the reflow read and \<^verbatim>\<open>elementFits\<close> on the target in
  the in-place variant, the probe's height in its box against the container's
  height in the clone variant.
\<close>

definition fitAt :: "variant \<Rightarrow> layout \<Rightarrow> int \<Rightarrow> js_error + bool" where
  "fitAt v L n =
     (case v of
        InPlace \<Rightarrow>
          (case scrollHeight L n of
             Inl e \<Rightarrow> Inl e
           | Inr _ \<Rightarrow> elementFits L \<lparr>fontSize = Some n, style = Map.empty, fittedFontPx = None\<rparr>)
      | Clone \<Rightarrow>
          (case probeScrollHeight L (max 0 \<lfloor>rectWidth L\<rfloor>) n of
             Inl e \<Rightarrow> Inl e
           | Inr h \<Rightarrow> Inr (h \<le> clientHeight L)))"

section \<open>Refit controller\<close>

text \<open>The defaults object of each variant (lines 66-72 and 199-206).\<close>

definition defaults :: "variant \<Rightarrow> opts" where
  "defaults v =
     \<lparr>minPx = 8, maxPx = 512, observeMutations = True, observeResize = True,
      debounceMs = 100,
      refitOnFontLoad = (case v of InPlace \<Rightarrow> None | Clone \<Rightarrow> Some True),
      extra = Map.empty\<rparr>"

text \<open>
  \<^verbatim>\<open>Object.assign(defaults, options)\<close>: every property present in \<open>options\<close>,
  whatever its name, is copied into the defaults object, replacing the property
  of that name if there is one.
\<close>

definition object_assign :: "opts \<Rightarrow> options \<Rightarrow> opts" where
  "object_assign d opt =
     \<lparr>minPx = (case o_minPx opt of None \<Rightarrow> minPx d | Some x \<Rightarrow> x),
      maxPx = (case o_maxPx opt of None \<Rightarrow> maxPx d | Some x \<Rightarrow> x),
      observeMutations =
        (case o_observeMutations opt of None \<Rightarrow> observeMutations d | Some b \<Rightarrow> b),
      observeResize =
        (case o_observeResize opt of None \<Rightarrow> observeResize d | Some b \<Rightarrow> b),
      debounceMs = (case o_debounceMs opt of None \<Rightarrow> debounceMs d | Some x \<Rightarrow> x),
      refitOnFontLoad =
        (case o_refitOnFontLoad opt of None \<Rightarrow> refitOnFontLoad d | Some b \<Rightarrow> Some b),
      extra = extra d ++ o_extra opt\<rparr>"

text \<open>
  A call of \<^verbatim>\<open>debounced\<close> (lines 6-12, 75 and 125-127, 209): the pending timeout,
  if any, is cleared and a new one is set with the configured delay.
\<close>

definition debounced :: "session \<Rightarrow> session" where
  "debounced s = s\<lparr>timer := Some (debounceMs (opts s))\<rparr>"

text \<open>
  The two ends of a refit cycle. \<open>refit_enter\<close> is the guard and the setting of the
  flag (lines 78-79 and 212-213): \<open>None\<close> when the call returns at once because a
  cycle is running. \<open>refit_leave\<close> is the \<^verbatim>\<open>finally\<close> block (lines 84-86 and 218-220).
\<close>

definition refit_enter :: "session \<Rightarrow> session option" where
  "refit_enter s =
     (if busy s then None
      else Some (s\<lparr>busy := True, inProgress := Suc (inProgress s),
                   peak := max (peak s) (Suc (inProgress s))\<rparr>))"

definition refit_leave :: "session \<Rightarrow> session" where
  "refit_leave s = s\<lparr>busy := False, inProgress := inProgress s - 1\<rparr>"

text \<open>
  \<^verbatim>\<open>refit\<close> (lines 77-87 and 211-221). The result is the exception that left the
  call, if any, and the state after the \<^verbatim>\<open>finally\<close> block; \<open>None\<close> when the call
  never returns. Inside the \<^verbatim>\<open>try\<close> block, the first layout read of
  \<^verbatim>\<open>computeBestFontSize\<close> may call \<^verbatim>\<open>refit\<close> again (\<open>reentrant\<close>): the nested call
  runs this same function on the state as it is then, and an exception it throws
  leaves the outer call through its \<^verbatim>\<open>finally\<close> block.
\<close>

partial_function (option) refit ::
  "variant \<Rightarrow> layout \<Rightarrow> session \<Rightarrow> (js_error option \<times> session) option" where
  "refit v L s =
     (case refit_enter s of
        None \<Rightarrow> Some (None, s)
      | Some s1 \<Rightarrow>
          Option.bind (if reentrant L then refit v L s1 else Some (None, s1))
            (\<lambda>(nested, s1').
               case nested of
                 Some e \<Rightarrow> Some (Some e, refit_leave s1')
               | None \<Rightarrow>
                   (case computeBestFontSize v L (minPx (opts s1')) (maxPx (opts s1')) s1' of
                      None \<Rightarrow> None
                    | Some (Inl e, s2) \<Rightarrow> Some (Some e, refit_leave s2)
                    | Some (Inr best, s2) \<Rightarrow>
                        (let s3 = s2\<lparr>target := setFontSizePx (target s2) best\<rparr>;
                             s4 = s3\<lparr>target := (target s3)\<lparr>fittedFontPx := Some best\<rparr>\<rparr>
                         in Some (None, refit_leave s4)))))"

text \<open>
  \<^verbatim>\<open>fitFontToContainer\<close> (lines 63-115 and 196-253). \<open>None\<close> is a null or
  undefined argument. Nothing is measured or mutated before the function returns:
  the first refit waits for the next animation frame.
\<close>

definition fitFontToContainer ::
  "variant \<Rightarrow> host \<Rightarrow> element option \<Rightarrow> element option \<Rightarrow> options \<Rightarrow> js_error + session" where
  "fitFontToContainer v h targetEl containerEl options =
     (case (targetEl, containerEl) of
        (Some tgt, Some _) \<Rightarrow>
          (let s0 = \<lparr>opts = object_assign (defaults v) options, busy = False, timer = None,
                     ro = Unset, mo = Unset, winResize = False, raf = False,
                     fontsThen = False, target = tgt, body = [], trace = [],
                     inProgress = 0, peak = 0\<rparr>;
               s1 = (if observeResize (opts s0) \<and> hasResizeObserver h
                     then s0\<lparr>ro := Observing\<rparr> else s0\<lparr>winResize := True\<rparr>);
               s2 = (if observeMutations (opts s1) \<and> hasMutationObserver h
                     then s1\<lparr>mo := Observing\<rparr> else s1);
               s3 = (if v = Clone \<and> refitOnFontLoad (opts s2) = Some True \<and> hasFontsReady h
                     then s2\<lparr>fontsThen := True\<rparr> else s2)
           in Inr (s3\<lparr>raf := True\<rparr>))
      | _ \<Rightarrow> Inl (Error ''fitFontToContainer: target and container elements are required''))"

text \<open>\<^verbatim>\<open>disconnect\<close> (lines 109-113 and 247-251).\<close>

definition disconnect_observer :: "observer \<Rightarrow> observer" where
  "disconnect_observer ob = (case ob of Unset \<Rightarrow> Unset | _ \<Rightarrow> Disconnected)"

definition disconnect :: "session \<Rightarrow> session" where
  "disconnect s =
     s\<lparr>ro := disconnect_observer (ro s), mo := disconnect_observer (mo s),
       winResize := False\<rparr>"

text \<open>
  What the host can deliver to the session: a resize seen by the resize observer,
  the window's resize event, a mutation seen by the mutation observer, the
  resolution of \<^verbatim>\<open>document.fonts.ready\<close>, the debounce timeout, and the animation
  frame of the initial refit. A signal reaches the code only through a subscription
  that is still in place. The result is \<open>None\<close> when the callback never returns.
\<close>

datatype event =
  ResizeObserved | WindowResize | MutationObserved | FontsLoaded | TimerFired | AnimationFrame

definition fire ::
  "variant \<Rightarrow> layout \<Rightarrow> event \<Rightarrow> session \<Rightarrow> (js_error option \<times> session) option" where
  "fire v L ev s =
     (case ev of
        ResizeObserved \<Rightarrow>
          if ro s = Observing then Some (None, debounced s) else Some (None, s)
      | WindowResize \<Rightarrow> if winResize s then Some (None, debounced s) else Some (None, s)
      | MutationObserved \<Rightarrow>
          if mo s = Observing then Some (None, debounced s) else Some (None, s)
      | FontsLoaded \<Rightarrow>
          if fontsThen s then Some (None, debounced (s\<lparr>fontsThen := False\<rparr>))
          else Some (None, s)
      | TimerFired \<Rightarrow>
          (case timer s of
             None \<Rightarrow> Some (None, s)
           | Some d \<Rightarrow> refit v L (s\<lparr>timer := None\<rparr>))
      | AnimationFrame \<Rightarrow>
          if raf s then refit v L (s\<lparr>raf := False\<rparr>) else Some (None, s))"

section \<open>Concrete pages used in the examples\<close>

text \<open>
  A page whose content at \<open>n\<close> pixels is \<open>3 * n\<close> wide and \<open>2 * n\<close> high
  (in the box of the probe as well), in a container of the given client size.
\<close>

definition page :: "int \<Rightarrow> int \<Rightarrow> layout" where
  "page cw ch =
     \<lparr>clientWidth = cw, clientHeight = ch, rectWidth = of_int cw, inheritedFontPx = 16,
      reentrant = False,
      scrollWidth = (\<lambda>n. Inr (3 * n)), scrollHeight = (\<lambda>n. Inr (2 * n)),
      probeScrollHeight = (\<lambda>w n. Inr (2 * n))\<rparr>"

text \<open>The same page with a layout read that throws at font size \<open>k\<close>.\<close>

definition broken_page :: "int \<Rightarrow> int \<Rightarrow> int \<Rightarrow> layout" where
  "broken_page cw ch k =
     \<lparr>clientWidth = cw, clientHeight = ch, rectWidth = of_int cw, inheritedFontPx = 16,
      reentrant = False,
      scrollWidth = (\<lambda>n. Inr (3 * n)),
      scrollHeight = (\<lambda>n. if n = k then Inl (Error ''layout'') else Inr (2 * n)),
      probeScrollHeight = (\<lambda>w n. if n = k then Inl (Error ''layout'') else Inr (2 * n))\<rparr>"

text \<open>A page whose target has no content: its box is empty at every font size.\<close>

definition blank_page :: "int \<Rightarrow> int \<Rightarrow> layout" where
  "blank_page cw ch =
     \<lparr>clientWidth = cw, clientHeight = ch, rectWidth = of_int cw, inheritedFontPx = 16,
      reentrant = False,
      scrollWidth = (\<lambda>n. Inr 0), scrollHeight = (\<lambda>n. Inr 0),
      probeScrollHeight = (\<lambda>w n. Inr 0)\<rparr>"

definition plain_element :: element where
  "plain_element = \<lparr>fontSize = None, style = Map.empty, fittedFontPx = None\<rparr>"

definition no_options :: options where
  "no_options =
     \<lparr>o_minPx = None, o_maxPx = None, o_observeMutations = None, o_observeResize = None,
      o_debounceMs = None, o_refitOnFontLoad = None, o_extra = Map.empty\<rparr>"

definition browser :: host where
  "browser = \<lparr>hasResizeObserver = True, hasMutationObserver = True, hasFontsReady = True\<rparr>"

text \<open>
  The session that \<^verbatim>\<open>fitFontToContainer(target, container)\<close> returns in a browser
  with all observer interfaces, for a target without inline styles.
\<close>

definition fresh :: "variant \<Rightarrow> session" where
  "fresh v =
     \<lparr>opts = defaults v, busy = False, timer = None, ro = Observing, mo = Observing,
      winResize = False, raf = True, fontsThen = (v = Clone), target = plain_element,
      body = [], trace = [], inProgress = 0, peak = 0\<rparr>"

section \<open>Auxiliary notions for the statements\<close>

text \<open>
  The controller variables of a session: everything but the target element, the
  measuring boxes and the trace of layout work. The search never writes them.
\<close>

definition control ::
  "session \<Rightarrow>
     opts \<times> bool \<times> real option \<times> observer \<times> observer \<times> bool \<times> bool \<times> bool \<times> nat \<times> nat" where
  "control s =
     (opts s, busy s, timer s, ro s, mo s, winResize s, raf s, fontsThen s, inProgress s,
      peak s)"

text \<open>The ghost counter agrees with the busy flag: one cycle when busy, none when idle.\<close>

definition cycles_ok :: "session \<Rightarrow> bool" where
  "cycles_ok s = (inProgress s = (if busy s then 1 else 0))"

text \<open>
  The number \<^verbatim>\<open>computeBestFontSize\<close> returns for the loop's final \<open>best\<close>
  (lines 60 and 193).
\<close>

definition returned :: "variant \<Rightarrow> int \<Rightarrow> real" where
  "returned v best = (case v of InPlace \<Rightarrow> of_int (rnd (best - 10)) | Clone \<Rightarrow> of_int best)"

section \<open>Rounding\<close>

declare ulp.simps [simp del]

lemma ulp_small: "a < 9007199254740992 \<Longrightarrow> ulp a = 1"
  by (subst ulp.simps) simp

lemma ulp_mid: "9007199254740992 \<le> a \<Longrightarrow> a < 18014398509481984 \<Longrightarrow> ulp a = 2"
  by (subst ulp.simps) (simp add: ulp_small)

lemma ulp_top: "ulp 18014398509481984 = 4"
  by (subst ulp.simps) (simp add: ulp_mid)

lemma rnd_exact: "\<bar>x\<bar> \<le> 9007199254740992 \<Longrightarrow> rnd x = x"
proof (cases "\<bar>x\<bar> = 9007199254740992")
  case True
  then have "nat \<bar>x\<bar> = 9007199254740992" by simp
  then have "rnd x = sgn x * 9007199254740992" by (simp add: rnd_def Let_def ulp_mid)
  with True show ?thesis by (auto simp: sgn_if abs_if split: if_splits)
next
  case False
  assume "\<bar>x\<bar> \<le> 9007199254740992"
  with False have "nat \<bar>x\<bar> < 9007199254740992" by simp
  then show ?thesis by (simp add: rnd_def Let_def ulp_small sgn_if)
qed

lemma rnd_above: "rnd 9007199254740993 = 9007199254740992"
  by (simp add: rnd_def Let_def ulp_mid)

lemma rnd_top: "rnd 18014398509481984 = 18014398509481984"
  by (simp add: rnd_def Let_def ulp_top)

lemma rnd_between:
  assumes "9007199254740992 < x" and "x < 18014398509481984"
  shows "rnd x = (if even x then x else if even (x div 2) then x - 1 else x + 1)"
proof -
  define a where "a = nat \<bar>x\<bar>"
  have ax: "int a = x" using assms by (simp add: a_def)
  have u: "ulp a = 2" using assms by (intro ulp_mid) (simp_all add: a_def)
  have sg: "sgn x = 1" using assms by simp
  have q: "int (a div 2) = x div 2" using ax by (metis of_nat_numeral zdiv_int)
  have r: "int (a mod 2) = x mod 2" using ax by (metis of_nat_numeral zmod_int)
  have ev: "even a = even x" using ax by (metis even_of_nat)
  have evq: "even (a div 2) = even (x div 2)" using q by (metis even_of_nat)
  show ?thesis
  proof (cases "even x")
    case True
    then have "a mod 2 = 0" using ev by presburger
    then have "rnd x = int (a div 2 * 2)"
      unfolding rnd_def Let_def a_def[symmetric] u sg by simp
    also have "\<dots> = x" using True q by simp
    finally show ?thesis using True by simp
  next
    case False
    then have m: "a mod 2 = 1" using ev by presburger
    have x2: "x div 2 * 2 = x - 1" using False by presburger
    show ?thesis
    proof (cases "even (x div 2)")
      case True
      then have "rnd x = int (a div 2 * 2)"
        unfolding rnd_def Let_def a_def[symmetric] u sg using m evq by simp
      also have "\<dots> = x - 1" using q x2 by simp
      finally show ?thesis using False True by simp
    next
      case odd: False
      then have "rnd x = int ((a div 2 + 1) * 2)"
        unfolding rnd_def Let_def a_def[symmetric] u sg using m evq by simp
      also have "\<dots> = x + 1" using q x2 by simp
      finally show ?thesis using False odd by simp
    qed
  qed
qed

text \<open>
  Up to \<open>2 ^ 53\<close> the midpoint the script computes lies between the bounds, though
  not always at the exact half.
\<close>

lemma midpoint_range:
  assumes "1 \<le> lo" and "lo \<le> hi" and "hi \<le> 9007199254740992"
  shows "lo \<le> rnd (lo + hi) div 2 \<and> rnd (lo + hi) div 2 \<le> hi"
proof -
  consider "lo + hi \<le> 9007199254740992"
    | "9007199254740992 < lo + hi" "lo + hi < 18014398509481984"
    | "lo + hi = 18014398509481984" using assms by linarith
  then show ?thesis
  proof cases
    case 1
    then have "rnd (lo + hi) = lo + hi" using assms by (intro rnd_exact) simp
    moreover have "lo \<le> (lo + hi) div 2 \<and> (lo + hi) div 2 \<le> hi" using assms by linarith
    ultimately show ?thesis by simp
  next
    case 2
    show ?thesis
    proof (cases "even (lo + hi)")
      case True
      then have "rnd (lo + hi) = lo + hi" using rnd_between[OF 2] by simp
      moreover have "lo \<le> (lo + hi) div 2 \<and> (lo + hi) div 2 \<le> hi" using assms by linarith
      ultimately show ?thesis by simp
    next
      case False
      then have "lo \<noteq> hi" by auto
      then have lt: "lo < hi" using assms by simp
      have "rnd (lo + hi) = lo + hi - 1 \<or> rnd (lo + hi) = lo + hi + 1"
        using rnd_between[OF 2] False by simp
      moreover have "lo \<le> (lo + hi - 1) div 2 \<and> (lo + hi - 1) div 2 \<le> hi"
        using lt by linarith
      moreover have "lo \<le> (lo + hi + 1) div 2 \<and> (lo + hi + 1) div 2 \<le> hi"
        using lt by linarith
      ultimately show ?thesis by auto
    qed
  next
    case 3
    then have "lo = 9007199254740992" "hi = 9007199254740992" using assms by simp_all
    then show ?thesis by (simp add: rnd_top)
  qed
qed

section \<open>The search loop\<close>

lemma search_done: "\<not> lo \<le> hi \<Longrightarrow> search probe lo hi best st = Some (Inr best, st)"
  by (subst search.simps) simp

lemma search_step:
  "lo \<le> hi \<Longrightarrow> probe (rnd (lo + hi) div 2) st = (r, st1) \<Longrightarrow>
   search probe lo hi best st =
     (case r of
        Inl e \<Rightarrow> Some (Inl e, st1)
      | Inr f \<Rightarrow>
          if f then search probe (rnd (rnd (lo + hi) div 2 + 1)) hi (rnd (lo + hi) div 2) st1
          else search probe lo (rnd (rnd (lo + hi) div 2 - 1)) best st1)"
  by (subst search.simps) (simp add: Let_def split: sum.splits)

text \<open>Below \<open>2 ^ 53\<close> the steps of the loop are exact.\<close>

lemma search_safe_step:
  assumes "1 \<le> lo" and "lo \<le> hi" and "hi < 9007199254740992"
    and "probe (rnd (lo + hi) div 2) st = (r, st1)"
  shows "search probe lo hi best st =
     (case r of
        Inl e \<Rightarrow> Some (Inl e, st1)
      | Inr f \<Rightarrow>
          if f then search probe (rnd (lo + hi) div 2 + 1) hi (rnd (lo + hi) div 2) st1
          else search probe lo (rnd (lo + hi) div 2 - 1) best st1)"
proof -
  have m: "lo \<le> rnd (lo + hi) div 2 \<and> rnd (lo + hi) div 2 \<le> hi"
    using midpoint_range[of lo hi] assms by simp
  have "rnd (rnd (lo + hi) div 2 + 1) = rnd (lo + hi) div 2 + 1"
    using m assms by (intro rnd_exact) simp
  moreover have "rnd (rnd (lo + hi) div 2 - 1) = rnd (lo + hi) div 2 - 1"
    using m assms by (intro rnd_exact) simp
  ultimately show ?thesis using search_step[where probe = probe and lo = lo and hi = hi and st = st and r = r
        and ?st1.0 = st1 and best = best, OF assms(2,4)] by (simp split: sum.splits)
qed

text \<open>
  Below \<open>2 ^ 53\<close> the loop returns, whatever the probe answers, and what it returns
  is the initial \<open>best\<close> or a size between the bounds.
\<close>

lemma search_safe_range:
  "1 \<le> lo \<Longrightarrow> hi < 9007199254740992 \<Longrightarrow>
   \<exists>r st'. search probe lo hi best st = Some (r, st') \<and>
     (\<forall>b. r = Inr b \<longrightarrow> b = best \<or> (lo \<le> b \<and> b \<le> hi))"
proof (induction "nat (hi + 1 - lo)" arbitrary: lo hi best st rule: less_induct)
  case less
  show ?case
  proof (cases "lo \<le> hi")
    case False
    then show ?thesis by (simp add: search_done)
  next
    case True
    define mid where "mid = rnd (lo + hi) div 2"
    have m: "lo \<le> mid" "mid \<le> hi"
      using midpoint_range[of lo hi] True less.prems by (simp_all add: mid_def)
    obtain r st1 where p: "probe mid st = (r, st1)" by (cases "probe mid st")
    note unf = search_safe_step[where probe = probe and lo = lo and hi = hi and st = st
        and r = r and ?st1.0 = st1 and best = best,
        OF less.prems(1) True less.prems(2) p[unfolded mid_def], folded mid_def]
    show ?thesis
    proof (cases r)
      case (Inl e)
      with unf show ?thesis by simp
    next
      case (Inr f)
      show ?thesis
      proof (cases f)
        case True
        have "\<exists>r st'. search probe (mid + 1) hi mid st1 = Some (r, st') \<and>
            (\<forall>b. r = Inr b \<longrightarrow> b = mid \<or> (mid + 1 \<le> b \<and> b \<le> hi))"
          using m less.prems by (intro less.hyps) simp_all
        with unf Inr True m show ?thesis by fastforce
      next
        case False
        have "\<exists>r st'. search probe lo (mid - 1) best st1 = Some (r, st') \<and>
            (\<forall>b. r = Inr b \<longrightarrow> b = best \<or> (lo \<le> b \<and> b \<le> mid - 1))"
          using m less.prems by (intro less.hyps) simp_all
        with unf Inr False m show ?thesis by fastforce
      qed
    qed
  qed
qed

text \<open>
  With an oracle that answers \<open>fits n\<close> at every size, and is monotone from \<open>lo0\<close>
  up, the loop below \<open>2 ^ 53\<close> returns the largest size of the range that fits.
\<close>

lemma search_largest:
  assumes mono: "\<And>x y. lo0 \<le> y \<Longrightarrow> y < x \<Longrightarrow> fits x \<Longrightarrow> fits y"
    and pure: "\<And>n st. fst (probe n st) = Inr (fits n)"
    and safe: "hi0 < 9007199254740992"
  shows "1 \<le> lo \<Longrightarrow> hi \<le> hi0 \<Longrightarrow> (\<forall>n. hi < n \<and> n \<le> hi0 \<longrightarrow> \<not> fits n) \<Longrightarrow>
     (lo = lo0 \<and> best = lo0) \<or>
       (best = lo - 1 \<and> lo0 \<le> best \<and> best \<le> hi0 \<and> fits best \<and> lo \<le> hi + 1) \<Longrightarrow>
     \<exists>b st'. search probe lo hi best st = Some (Inr b, st') \<and>
       ((lo0 \<le> b \<and> b \<le> hi0 \<and> fits b \<and> (\<forall>n. b < n \<and> n \<le> hi0 \<longrightarrow> \<not> fits n)) \<or>
        (b = lo0 \<and> (\<forall>n. lo0 \<le> n \<and> n \<le> hi0 \<longrightarrow> \<not> fits n)))"
proof (induction "nat (hi + 1 - lo)" arbitrary: lo hi best st rule: less_induct)
  case less
  note prems = less.prems
  show ?case
  proof (cases "lo \<le> hi")
    case False
    have "search probe lo hi best st = Some (Inr best, st)" using False by (rule search_done)
    moreover have "(lo0 \<le> best \<and> best \<le> hi0 \<and> fits best \<and>
          (\<forall>n. best < n \<and> n \<le> hi0 \<longrightarrow> \<not> fits n)) \<or>
        (best = lo0 \<and> (\<forall>n. lo0 \<le> n \<and> n \<le> hi0 \<longrightarrow> \<not> fits n))"
      using False prems(3,4) by auto
    ultimately show ?thesis by blast
  next
    case True
    define mid where "mid = rnd (lo + hi) div 2"
    have hs: "hi < 9007199254740992" using prems(2) safe by simp
    have m: "lo \<le> mid" "mid \<le> hi"
      using midpoint_range[of lo hi] True prems(1) hs by (simp_all add: mid_def)
    have lo0: "lo0 \<le> lo" using prems(4) by auto
    obtain r st1 where p: "probe mid st = (r, st1)" by (cases "probe mid st")
    have r: "r = Inr (fits mid)" using p pure[of mid st] by simp
    note unf = search_safe_step[where probe = probe and lo = lo and hi = hi and st = st
        and r = r and ?st1.0 = st1 and best = best,
        OF prems(1) True hs p[unfolded mid_def], folded mid_def]
    show ?thesis
    proof (cases "fits mid")
      case True
      have eq: "search probe lo hi best st = search probe (mid + 1) hi mid st1"
        using unf r True by simp
      have "\<exists>b st'. search probe (mid + 1) hi mid st1 = Some (Inr b, st') \<and>
       ((lo0 \<le> b \<and> b \<le> hi0 \<and> fits b \<and> (\<forall>n. b < n \<and> n \<le> hi0 \<longrightarrow> \<not> fits n)) \<or>
        (b = lo0 \<and> (\<forall>n. lo0 \<le> n \<and> n \<le> hi0 \<longrightarrow> \<not> fits n)))"
      proof (rule less.hyps)
        show "nat (hi + 1 - (mid + 1)) < nat (hi + 1 - lo)" using m by simp
        show "1 \<le> mid + 1" using m prems(1) by simp
        show "hi \<le> hi0" by (rule prems(2))
        show "\<forall>n. hi < n \<and> n \<le> hi0 \<longrightarrow> \<not> fits n" by (rule prems(3))
        show "mid + 1 = lo0 \<and> mid = lo0 \<or>
          mid = mid + 1 - 1 \<and> lo0 \<le> mid \<and> mid \<le> hi0 \<and> fits mid \<and> mid + 1 \<le> hi + 1"
          using True m lo0 prems(2) by simp
      qed
      with eq show ?thesis by simp
    next
      case False
      have eq: "search probe lo hi best st = search probe lo (mid - 1) best st1"
        using unf r False by simp
      have nofit: "\<forall>n. mid - 1 < n \<and> n \<le> hi0 \<longrightarrow> \<not> fits n"
      proof (intro allI impI)
        fix n assume n: "mid - 1 < n \<and> n \<le> hi0"
        show "\<not> fits n"
        proof
          assume f: "fits n"
          have "n \<noteq> mid" using f False by auto
          with n have "mid < n" by simp
          from mono[OF _ this f] lo0 m have "fits mid" by simp
          with False show False by simp
        qed
      qed
      have "\<exists>b st'. search probe lo (mid - 1) best st1 = Some (Inr b, st') \<and>
       ((lo0 \<le> b \<and> b \<le> hi0 \<and> fits b \<and> (\<forall>n. b < n \<and> n \<le> hi0 \<longrightarrow> \<not> fits n)) \<or>
        (b = lo0 \<and> (\<forall>n. lo0 \<le> n \<and> n \<le> hi0 \<longrightarrow> \<not> fits n)))"
      proof (rule less.hyps)
        show "nat (mid - 1 + 1 - lo) < nat (hi + 1 - lo)" using m by simp
        show "1 \<le> lo" by (rule prems(1))
        show "mid - 1 \<le> hi0" using m prems(2) by simp
        show "\<forall>n. mid - 1 < n \<and> n \<le> hi0 \<longrightarrow> \<not> fits n" by (rule nofit)
        show "lo = lo0 \<and> best = lo0 \<or>
          best = lo - 1 \<and> lo0 \<le> best \<and> best \<le> hi0 \<and> fits best \<and> lo \<le> mid - 1 + 1"
          using prems(4) m by auto
      qed
      with eq show ?thesis by simp
    qed
  qed
qed

text \<open>
  When the answer of the probe does not depend on the state, neither do the result
  of the loop and whether it returns.
\<close>

lemma search_fst_state_aux:
  assumes run: "search probe lo hi best st = Some y"
  shows "(\<forall>n a b. fst (probe n a) = fst (probe n b)) \<longrightarrow>
     (\<forall>st2. \<exists>y2. search probe lo hi best st2 = Some y2 \<and> fst y2 = fst y)"
proof (rule search.raw_induct[where P = "\<lambda>probe lo hi best st y.
    (\<forall>n a b. fst (probe n a) = fst (probe n b)) \<longrightarrow>
     (\<forall>st2. \<exists>y2. search probe lo hi best st2 = Some y2 \<and> fst y2 = fst y)", OF _ run])
  fix f :: "(int \<Rightarrow> 'a \<Rightarrow> (js_error + bool) \<times> 'a) \<Rightarrow> int \<Rightarrow> int \<Rightarrow> int \<Rightarrow> 'a
     \<Rightarrow> ((js_error + int) \<times> 'a) option"
  fix probe lo hi best st y
  assume IH: "\<And>probe lo hi best st y. f probe lo hi best st = Some y \<Longrightarrow>
    (\<forall>n a b. fst (probe n a) = fst (probe n b)) \<longrightarrow>
     (\<forall>st2. \<exists>y2. search probe lo hi best st2 = Some y2 \<and> fst y2 = fst y)"
  assume body: "(if lo \<le> hi then
        (let mid = rnd (lo + hi) div 2 in
         case probe mid st of
           (Inl e, st') \<Rightarrow> Some (Inl e, st')
         | (Inr fits, st') \<Rightarrow>
             if fits then f probe (rnd (mid + 1)) hi mid st'
             else f probe lo (rnd (mid - 1)) best st')
      else Some (Inr best, st)) = Some y"
  show "(\<forall>n a b. fst (probe n a) = fst (probe n b)) \<longrightarrow>
     (\<forall>st2. \<exists>y2. search probe lo hi best st2 = Some y2 \<and> fst y2 = fst y)"
  proof (intro impI allI)
    fix st2
    assume pure: "\<forall>n a b. fst (probe n a) = fst (probe n b)"
    show "\<exists>y2. search probe lo hi best st2 = Some y2 \<and> fst y2 = fst y"
    proof (cases "lo \<le> hi")
      case False
      with body show ?thesis by (auto simp: search_done)
    next
      case True
      define mid where "mid = rnd (lo + hi) div 2"
      obtain r st1 where p: "probe mid st = (r, st1)" by (cases "probe mid st")
      obtain r2 st3 where p2: "probe mid st2 = (r2, st3)" by (cases "probe mid st2")
      have rr: "r2 = r" using p p2 pure by (metis fst_conv)
      note s2 = search_step[where probe = probe and lo = lo and hi = hi and st = st2 and r = r
          and ?st1.0 = st3 and best = best, OF True p2[unfolded mid_def rr], folded mid_def]
      show ?thesis
      proof (cases r)
        case (Inl e)
        with body True p s2 show ?thesis by (auto simp: mid_def Let_def)
      next
        case (Inr b)
        show ?thesis
        proof (cases b)
          case True
          with body \<open>lo \<le> hi\<close> p Inr
          have "f probe (rnd (mid + 1)) hi mid st1 = Some y" by (simp add: mid_def Let_def)
          from IH[OF this] pure s2 Inr True show ?thesis by simp
        next
          case False
          with body \<open>lo \<le> hi\<close> p Inr
          have "f probe lo (rnd (mid - 1)) best st1 = Some y" by (simp add: mid_def Let_def)
          from IH[OF this] pure s2 Inr False show ?thesis by simp
        qed
      qed
    qed
  qed
qed

lemma search_fst_state:
  assumes "\<forall>n a b. fst (probe n a) = fst (probe n b)"
  shows "map_option fst (search probe lo hi best st) =
         map_option fst (search probe lo hi best st2)"
proof (cases "search probe lo hi best st")
  case None
  show ?thesis
  proof (cases "search probe lo hi best st2")
    case n2: None
    with None show ?thesis by simp
  next
    case (Some y)
    from search_fst_state_aux[OF Some] assms obtain y2
      where "search probe lo hi best st = Some y2" by blast
    with None show ?thesis by simp
  qed
next
  case (Some y)
  from search_fst_state_aux[OF Some] assms obtain y2
    where "search probe lo hi best st2 = Some y2" "fst y2 = fst y" by blast
  with Some show ?thesis by simp
qed

text \<open>What every probe keeps, the loop keeps.\<close>

lemma search_preserves_aux:
  assumes run: "search probe lo hi best st = Some y"
  shows "(\<forall>n st. P st \<longrightarrow> P (snd (probe n st))) \<longrightarrow> P st \<longrightarrow> P (snd y)"
proof (rule search.raw_induct[where P = "\<lambda>probe lo hi best st y.
    (\<forall>n st. P st \<longrightarrow> P (snd (probe n st))) \<longrightarrow> P st \<longrightarrow> P (snd y)", OF _ run])
  fix f :: "(int \<Rightarrow> 'a \<Rightarrow> (js_error + bool) \<times> 'a) \<Rightarrow> int \<Rightarrow> int \<Rightarrow> int \<Rightarrow> 'a
     \<Rightarrow> ((js_error + int) \<times> 'a) option"
  fix probe lo hi best st y
  assume IH: "\<And>probe lo hi best st y. f probe lo hi best st = Some y \<Longrightarrow>
    (\<forall>n st. P st \<longrightarrow> P (snd (probe n st))) \<longrightarrow> P st \<longrightarrow> P (snd y)"
  assume body: "(if lo \<le> hi then
        (let mid = rnd (lo + hi) div 2 in
         case probe mid st of
           (Inl e, st') \<Rightarrow> Some (Inl e, st')
         | (Inr fits, st') \<Rightarrow>
             if fits then f probe (rnd (mid + 1)) hi mid st'
             else f probe lo (rnd (mid - 1)) best st')
      else Some (Inr best, st)) = Some y"
  show "(\<forall>n st. P st \<longrightarrow> P (snd (probe n st))) \<longrightarrow> P st \<longrightarrow> P (snd y)"
  proof (intro impI)
    assume keep: "\<forall>n st. P st \<longrightarrow> P (snd (probe n st))" and P0: "P st"
    show "P (snd y)"
    proof (cases "lo \<le> hi")
      case False
      with body P0 show ?thesis by auto
    next
      case True
      define mid where "mid = rnd (lo + hi) div 2"
      obtain r st1 where p: "probe mid st = (r, st1)" by (cases "probe mid st")
      have P1: "P st1" using keep P0 p by (metis snd_conv)
      show ?thesis
      proof (cases r)
        case (Inl e)
        with body True p P1 show ?thesis by (auto simp: mid_def Let_def)
      next
        case (Inr b)
        show ?thesis
        proof (cases b)
          case True
          with body \<open>lo \<le> hi\<close> p Inr
          have "f probe (rnd (mid + 1)) hi mid st1 = Some y" by (simp add: mid_def Let_def)
          from IH[OF this] keep P1 show ?thesis by simp
        next
          case False
          with body \<open>lo \<le> hi\<close> p Inr
          have "f probe lo (rnd (mid - 1)) best st1 = Some y" by (simp add: mid_def Let_def)
          from IH[OF this] keep P1 show ?thesis by simp
        qed
      qed
    qed
  qed
qed

lemma search_preserves:
  "search probe lo hi best st = Some y \<Longrightarrow>
   (\<forall>n st. P st \<longrightarrow> P (snd (probe n st))) \<Longrightarrow> P st \<Longrightarrow> P (snd y)"
  using search_preserves_aux[of probe lo hi best st y P] by simp

section \<open>The oracle behind the probes\<close>

lemma probe_inplace_fst: "fst (probe_inplace L mid s) = fitAt InPlace L (max 1 mid)"
  by (simp add: probe_inplace_def fitAt_def setFontSizePx_def usedFontPx_def elementFits_def
      Let_def split: sum.splits)

lemma probe_clone_fst:
  "fst (probe_clone L (max 0 \<lfloor>rectWidth L\<rfloor>) (clientHeight L) mid ps) = fitAt Clone L (max 1 mid)"
  by (simp add: probe_clone_def fitAt_def setFontSizePx_def usedFontPx_def
      Let_def split: sum.splits)

lemma searchLoop_inplace_search:
  "\<exists>st. searchLoop_inplace L min_px max_px s =
     search (probe_inplace L) (max 1 \<lfloor>min_px\<rfloor>) \<lfloor>max_px\<rfloor> (max 1 \<lfloor>min_px\<rfloor>) st"
  by (simp add: searchLoop_inplace_def Let_def) blast

lemma searchLoop_clone_search:
  "\<exists>st. map_option fst (searchLoop_clone L min_px max_px s) =
     map_option fst (search (probe_clone L (max 0 \<lfloor>rectWidth L\<rfloor>) (clientHeight L))
            (max 1 \<lfloor>min_px\<rfloor>) \<lfloor>max_px\<rfloor> (max 1 \<lfloor>min_px\<rfloor>) st)"
proof -
  define box where "box = snd (cloneForMeasure (target (snd (makeMeasureBox L s))) (fst (makeMeasureBox L s)))"
  define pr where "pr = fst (cloneForMeasure (target (snd (makeMeasureBox L s))) (fst (makeMeasureBox L s)))"
  define s2 where "s2 = (snd (makeMeasureBox L s))\<lparr>body := body s @ [box],
      trace := trace (snd (makeMeasureBox L s)) @ [CloneNode]\<rparr>"
  define res where "res = search (probe_clone L (max 0 \<lfloor>rectWidth L\<rfloor>) (clientHeight L))
      (max 1 \<lfloor>min_px\<rfloor>) \<lfloor>max_px\<rfloor> (max 1 \<lfloor>min_px\<rfloor>) (pr, s2)"
  have w: "box_width box = max 0 \<lfloor>rectWidth L\<rfloor>"
    by (simp add: box_def cloneForMeasure_def makeMeasureBox_def Let_def)
  have unf: "searchLoop_clone L min_px max_px s =
      (case res of None \<Rightarrow> None
       | Some (r, (probe', s3)) \<Rightarrow>
           Some (r, s3\<lparr>body := body s @ [box\<lparr>box_child := Some probe'\<rparr>]\<rparr>))"
    by (simp add: searchLoop_clone_def Let_def res_def s2_def pr_def box_def
        cloneForMeasure_def makeMeasureBox_def split: option.splits prod.splits)
  have "map_option fst (searchLoop_clone L min_px max_px s) = map_option fst res"
    by (cases res) (auto simp: unf split: prod.splits)
  then show ?thesis unfolding res_def by blast
qed

lemma searchLoop_fst_state:
  "map_option fst (searchLoop v L min_px max_px s) =
   map_option fst (searchLoop v L min_px max_px s2)"
proof (cases v)
  case InPlace
  have "\<forall>n a b. fst (probe_inplace L n a) = fst (probe_inplace L n b)"
    by (simp add: probe_inplace_fst)
  from search_fst_state[OF this] InPlace show ?thesis
    by (simp add: searchLoop_def searchLoop_inplace_def Let_def)
next
  case Clone
  have p: "\<forall>n a b. fst (probe_clone L (max 0 \<lfloor>rectWidth L\<rfloor>) (clientHeight L) n a) =
      fst (probe_clone L (max 0 \<lfloor>rectWidth L\<rfloor>) (clientHeight L) n b)"
    by (simp add: probe_clone_fst)
  obtain st where a: "map_option fst (searchLoop_clone L min_px max_px s) =
     map_option fst (search (probe_clone L (max 0 \<lfloor>rectWidth L\<rfloor>) (clientHeight L))
            (max 1 \<lfloor>min_px\<rfloor>) \<lfloor>max_px\<rfloor> (max 1 \<lfloor>min_px\<rfloor>) st)"
    using searchLoop_clone_search by blast
  obtain st2 where b: "map_option fst (searchLoop_clone L min_px max_px s2) =
     map_option fst (search (probe_clone L (max 0 \<lfloor>rectWidth L\<rfloor>) (clientHeight L))
            (max 1 \<lfloor>min_px\<rfloor>) \<lfloor>max_px\<rfloor> (max 1 \<lfloor>min_px\<rfloor>) st2)"
    using searchLoop_clone_search by blast
  from search_fst_state[OF p, of _ _ _ st st2] a b Clone show ?thesis
    by (simp add: searchLoop_def)
qed

text \<open>The result of \<^verbatim>\<open>computeBestFontSize\<close> in terms of the loop's.\<close>

lemma computeBestFontSize_fst:
  "map_option fst (computeBestFontSize v L min_px max_px s) =
     (if clientWidth L \<le> 0 \<or> clientHeight L \<le> 0 then Some (Inr min_px)
      else map_option (map_sum id (returned v))
             (map_option fst (searchLoop v L min_px max_px s)))"
  by (cases v)
    (auto simp: computeBestFontSize_def computeBestFontSize_inplace_def returned_def
      computeBestFontSize_clone_def searchLoop_def Let_def split: option.splits prod.splits sum.splits)

lemma computeBestFontSize_fst_state:
  "map_option fst (computeBestFontSize v L min_px max_px s) =
   map_option fst (computeBestFontSize v L min_px max_px s2)"
  using searchLoop_fst_state[of v L min_px max_px s s2] by (simp add: computeBestFontSize_fst)

section \<open>State kept by the search, and the outcome of a refit\<close>

lemma searchLoop_control_inplace:
  assumes "searchLoop_inplace L min_px max_px s = Some y"
  shows "control (snd y) = control s"
proof -
  have "\<forall>n st. control st = control s \<longrightarrow> control (snd (probe_inplace L n st)) = control s"
    by (simp add: probe_inplace_def control_def Let_def split: sum.splits)
  from search_preserves[where P = "\<lambda>st. control st = control s", OF _ this] assms
  show ?thesis
    by (simp add: searchLoop_inplace_def Let_def control_def)
qed

lemma searchLoop_control_clone:
  assumes "searchLoop_clone L min_px max_px s = Some y"
  shows "control (snd y) = control s"
proof -
  define box where "box = snd (cloneForMeasure (target (snd (makeMeasureBox L s))) (fst (makeMeasureBox L s)))"
  define pr where "pr = fst (cloneForMeasure (target (snd (makeMeasureBox L s))) (fst (makeMeasureBox L s)))"
  define s2 where "s2 = (snd (makeMeasureBox L s))\<lparr>body := body s @ [box],
      trace := trace (snd (makeMeasureBox L s)) @ [CloneNode]\<rparr>"
  define res where "res = search (probe_clone L (box_width box) (clientHeight L))
      (max 1 \<lfloor>min_px\<rfloor>) \<lfloor>max_px\<rfloor> (max 1 \<lfloor>min_px\<rfloor>) (pr, s2)"
  have unf: "searchLoop_clone L min_px max_px s =
      (case res of None \<Rightarrow> None
       | Some (r, (probe', s3)) \<Rightarrow>
           Some (r, s3\<lparr>body := body s @ [box\<lparr>box_child := Some probe'\<rparr>]\<rparr>))"
    by (simp add: searchLoop_clone_def Let_def res_def s2_def pr_def box_def
        cloneForMeasure_def makeMeasureBox_def split: option.splits prod.splits)
  from assms unf obtain r pr' s3 where res: "res = Some (r, (pr', s3))"
    and y: "y = (r, s3\<lparr>body := body s @ [box\<lparr>box_child := Some pr'\<rparr>]\<rparr>)"
    by (cases res) (auto split: prod.splits)
  have c2: "control (snd (pr, s2)) = control s"
    by (simp add: s2_def makeMeasureBox_def control_def Let_def)
  have "\<forall>n st. control (snd st) = control s \<longrightarrow>
      control (snd (snd (probe_clone L (box_width box) (clientHeight L) n st))) = control s"
    by (simp add: probe_clone_def control_def Let_def split: sum.splits)
  from search_preserves[where P = "\<lambda>st. control (snd st) = control s",
      OF res[unfolded res_def] this c2]
  have "control s3 = control s" by simp
  then show ?thesis by (simp add: y control_def)
qed

lemma computeBestFontSize_control:
  assumes "computeBestFontSize v L min_px max_px s = Some y"
  shows "control (snd y) = control s"
proof (cases "clientWidth L \<le> 0 \<or> clientHeight L \<le> 0")
  case True
  with assms show ?thesis
    by (cases v)
      (auto simp: computeBestFontSize_def computeBestFontSize_inplace_def
        computeBestFontSize_clone_def)
next
  case False
  show ?thesis
  proof (cases v)
    case InPlace
    with assms False obtain x where x: "searchLoop_inplace L min_px max_px s = Some x"
      by (cases "searchLoop_inplace L min_px max_px s")
        (auto simp: computeBestFontSize_def computeBestFontSize_inplace_def)
    from searchLoop_control_inplace[OF x] x assms False InPlace show ?thesis
      by (cases x; cases "fst x")
        (auto simp: computeBestFontSize_def computeBestFontSize_inplace_def)
  next
    case Clone
    with assms False obtain x where x: "searchLoop_clone L min_px max_px s = Some x"
      by (cases "searchLoop_clone L min_px max_px s")
        (auto simp: computeBestFontSize_def computeBestFontSize_clone_def)
    from searchLoop_control_clone[OF x] x assms False Clone show ?thesis
      by (cases x; cases "fst x")
        (auto simp: computeBestFontSize_def computeBestFontSize_clone_def control_def)
  qed
qed

lemma refit_busy: "busy s \<Longrightarrow> refit v L s = Some (None, s)"
  by (subst refit.simps) (simp add: refit_enter_def)

text \<open>
  A nested call finds the flag set and returns at once, so \<^verbatim>\<open>refit\<close> is the guard,
  the measurement and the \<^verbatim>\<open>finally\<close> block, whether or not a layout read calls it
  again.
\<close>

lemma refit_unfold:
  "refit v L s =
     (case refit_enter s of
        None \<Rightarrow> Some (None, s)
      | Some s1 \<Rightarrow>
          (case computeBestFontSize v L (minPx (opts s1)) (maxPx (opts s1)) s1 of
             None \<Rightarrow> None
           | Some (Inl e, s2) \<Rightarrow> Some (Some e, refit_leave s2)
           | Some (Inr best, s2) \<Rightarrow>
               (let s3 = s2\<lparr>target := setFontSizePx (target s2) best\<rparr>;
                    s4 = s3\<lparr>target := (target s3)\<lparr>fittedFontPx := Some best\<rparr>\<rparr>
                in Some (None, refit_leave s4))))"
proof (cases "refit_enter s")
  case None
  then show ?thesis by (subst refit.simps) simp
next
  case (Some s1)
  then have "busy s1" by (auto simp: refit_enter_def split: if_splits)
  then have "(if reentrant L then refit v L s1 else Some (None, s1)) = Some (None, s1)"
    by (simp add: refit_busy)
  with Some show ?thesis by (subst refit.simps) simp
qed

text \<open>
  What an idle \<^verbatim>\<open>refit\<close> does, by the outcome of the measurement: it does not
  return, or it returns the exception, or it applies and records the size.
\<close>

lemma refit_outcome:
  assumes "\<not> busy s"
  shows "case map_option fst (computeBestFontSize v L (minPx (opts s)) (maxPx (opts s)) s) of
        None \<Rightarrow> refit v L s = None
      | Some (Inl e) \<Rightarrow>
          (\<exists>s2. control s2 = control (s\<lparr>busy := True, inProgress := Suc (inProgress s),
               peak := max (peak s) (Suc (inProgress s))\<rparr>) \<and>
             refit v L s = Some (Some e, refit_leave s2))
      | Some (Inr best) \<Rightarrow>
          (\<exists>s2. control s2 = control (s\<lparr>busy := True, inProgress := Suc (inProgress s),
               peak := max (peak s) (Suc (inProgress s))\<rparr>) \<and>
             refit v L s =
               Some (None, refit_leave
                 (s2\<lparr>target := (setFontSizePx (target s2) best)\<lparr>fittedFontPx := Some best\<rparr>\<rparr>)))"
proof -
  define s1 where "s1 = s\<lparr>busy := True, inProgress := Suc (inProgress s),
               peak := max (peak s) (Suc (inProgress s))\<rparr>"
  have e: "refit_enter s = Some s1" using assms by (simp add: refit_enter_def s1_def)
  have o: "opts s1 = opts s" by (simp add: s1_def)
  have r: "map_option fst (computeBestFontSize v L (minPx (opts s)) (maxPx (opts s)) s) =
      map_option fst (computeBestFontSize v L (minPx (opts s)) (maxPx (opts s)) s1)"
    by (rule computeBestFontSize_fst_state)
  show ?thesis
  proof (cases "computeBestFontSize v L (minPx (opts s)) (maxPx (opts s)) s1")
    case None
    then show ?thesis using e o r by (simp add: refit_unfold)
  next
    case (Some y)
    obtain res s2 where y: "y = (res, s2)" by (cases y)
    have k: "control s2 = control s1" using computeBestFontSize_control[OF Some] y by simp
    show ?thesis
    proof (cases res)
      case (Inl err)
      with Some y e o r k show ?thesis by (auto simp: refit_unfold s1_def)
    next
      case (Inr best)
      with Some y e o r k show ?thesis by (auto simp: refit_unfold s1_def Let_def)
    qed
  qed
qed

lemma refit_success:
  assumes "\<not> busy s"
    and "map_option fst (computeBestFontSize v L (minPx (opts s)) (maxPx (opts s)) s) =
           Some (Inr best)"
  shows "\<exists>s'. refit v L s = Some (None, s') \<and> \<not> busy s' \<and>
     fontSize (target s') = Some (max 1 \<lfloor>best\<rfloor>) \<and>
     fittedFontPx (target s') = Some best \<and>
     opts s' = opts s \<and> inProgress s' = inProgress s \<and>
     peak s' = max (peak s) (Suc (inProgress s))"
  using refit_outcome[OF assms(1), of v L] assms(2)
  by (auto simp: setFontSizePx_def refit_leave_def control_def)

lemma refit_failure:
  assumes "\<not> busy s"
    and "map_option fst (computeBestFontSize v L (minPx (opts s)) (maxPx (opts s)) s) =
           Some (Inl e)"
  shows "\<exists>s'. refit v L s = Some (Some e, s') \<and> \<not> busy s' \<and>
     opts s' = opts s \<and> inProgress s' = inProgress s \<and>
     peak s' = max (peak s) (Suc (inProgress s))"
  using refit_outcome[OF assms(1), of v L] assms(2)
  by (auto simp: refit_leave_def control_def)

lemma refit_diverges:
  assumes "\<not> busy s"
    and "computeBestFontSize v L (minPx (opts s)) (maxPx (opts s)) s = None"
  shows "refit v L s = None"
  using refit_outcome[OF assms(1), of v L] assms(2) by simp

section \<open>Bounds of the computed size\<close>

lemma searchLoop_safe_returns:
  assumes "\<lfloor>max_px\<rfloor> < 9007199254740992"
  shows "\<exists>r. map_option fst (searchLoop v L min_px max_px s) = Some r \<and>
     (\<forall>b. r = Inr b \<longrightarrow>
        max 1 \<lfloor>min_px\<rfloor> \<le> b \<and> b \<le> max (max 1 \<lfloor>min_px\<rfloor>) \<lfloor>max_px\<rfloor>)"
proof -
  have range: "\<exists>r. map_option fst (search probe (max 1 \<lfloor>min_px\<rfloor>) \<lfloor>max_px\<rfloor>
        (max 1 \<lfloor>min_px\<rfloor>) st) = Some r \<and>
     (\<forall>b. r = Inr b \<longrightarrow>
        max 1 \<lfloor>min_px\<rfloor> \<le> b \<and> b \<le> max (max 1 \<lfloor>min_px\<rfloor>) \<lfloor>max_px\<rfloor>)"
    for probe :: "int \<Rightarrow> 'a \<Rightarrow> (js_error + bool) \<times> 'a" and st
    using search_safe_range[of "max 1 \<lfloor>min_px\<rfloor>" "\<lfloor>max_px\<rfloor>" probe "max 1 \<lfloor>min_px\<rfloor>" st] assms
    by fastforce
  show ?thesis
  proof (cases v)
    case InPlace
    obtain st where "searchLoop_inplace L min_px max_px s =
       search (probe_inplace L) (max 1 \<lfloor>min_px\<rfloor>) \<lfloor>max_px\<rfloor> (max 1 \<lfloor>min_px\<rfloor>) st"
      using searchLoop_inplace_search by blast
    with range[of "probe_inplace L" st] InPlace show ?thesis by (simp add: searchLoop_def)
  next
    case Clone
    obtain st where "map_option fst (searchLoop_clone L min_px max_px s) =
       map_option fst (search (probe_clone L (max 0 \<lfloor>rectWidth L\<rfloor>) (clientHeight L))
              (max 1 \<lfloor>min_px\<rfloor>) \<lfloor>max_px\<rfloor> (max 1 \<lfloor>min_px\<rfloor>) st)"
      using searchLoop_clone_search by blast
    with range[of "probe_clone L (max 0 \<lfloor>rectWidth L\<rfloor>) (clientHeight L)" st] Clone
    show ?thesis by (simp add: searchLoop_def)
  qed
qed

text \<open>
  In the clone variant the size returned for integer options with
  \<open>1 \<le> minPx \<le> maxPx < 2 ^ 53\<close> lies between them, whatever the layout engine
  answers.
\<close>

lemma computeBestFontSize_clone_within_bounds:
  assumes "1 \<le> mn" and "mn \<le> mx" and "mx < 9007199254740992"
    and "map_option fst (computeBestFontSize Clone L (of_int mn) (of_int mx) s) = Some (Inr r)"
  shows "of_int mn \<le> r \<and> r \<le> of_int mx"
proof (cases "clientWidth L \<le> 0 \<or> clientHeight L \<le> 0")
  case True
  with assms show ?thesis by (simp add: computeBestFontSize_fst)
next
  case False
  from searchLoop_safe_returns[of "of_int mx" Clone L "of_int mn" s] assms(3)
  obtain x where x: "map_option fst (searchLoop Clone L (of_int mn) (of_int mx) s) = Some x"
    and b: "\<forall>b. x = Inr b \<longrightarrow> max 1 mn \<le> b \<and> b \<le> max (max 1 mn) mx"
    by auto
  from assms(4) False x obtain b' where "x = Inr b'" "r = of_int b'"
    by (cases x) (auto simp: computeBestFontSize_fst returned_def)
  with b assms(1,2) show ?thesis by simp
qed

lemma rnd_exact_simp [simp]: "\<bar>numeral k :: int\<bar> \<le> 9007199254740992 \<Longrightarrow> rnd (numeral k) = numeral k"
  by (rule rnd_exact)

text \<open>
  Claim C1 (bounds property): for valid options and a container with positive client
  width and height, the size returned by \<^verbatim>\<open>computeBestFontSize\<close> lies between the
  minimum and the maximum, in both variants. The in-place variant returns
  \<open>best - 10\<close> (line 60), so the property fails there: with the default bounds 8 and
  512, a 200 by 30 container and content that is \<open>3 * n\<close> by \<open>2 * n\<close> at \<open>n\<close>
  pixels, the loop ends with \<open>best = 15\<close> and the function returns 5, below the
  minimum 8.
\<close>

theorem inplace_result_below_minimum:
  "map_option fst (computeBestFontSize InPlace (page 200 30) 8 512 (fresh InPlace)) =
     Some (Inr 5)"
  by (simp add: computeBestFontSize_def computeBestFontSize_inplace_def searchLoop_inplace_def
      page_def fresh_def search.simps probe_inplace_def elementFits_def setFontSizePx_def
      usedFontPx_def Let_def)

section \<open>Correctness of the binary search\<close>

lemma search_with_oracle:
  assumes probe: "\<And>n st. fst (probe n st) = fitAt v L (max 1 n)"
    and total: "\<forall>n. 1 \<le> n \<longrightarrow> fitAt v L n = Inr (fits n)"
    and mono: "\<forall>x y. 1 \<le> y \<and> y < x \<and> fits x \<longrightarrow> fits y"
    and lo: "1 \<le> lo" and safe: "hi < 9007199254740992"
  shows "\<exists>best. map_option fst (search probe lo hi lo st) = Some (Inr best) \<and>
           (if \<exists>n. lo \<le> n \<and> n \<le> hi \<and> fits n
            then lo \<le> best \<and> best \<le> hi \<and> fits best \<and>
                 (\<forall>n. best < n \<and> n \<le> hi \<longrightarrow> \<not> fits n)
            else best = lo)"
proof -
  define fits' where "fits' n = fits (max 1 n)" for n
  have same: "fits' n = fits n" if "1 \<le> n" for n using that by (simp add: fits'_def)
  have pure: "\<And>n st. fst (probe n st) = Inr (fits' n)"
    using probe total by (simp add: fits'_def)
  have mono': "\<And>x y. lo \<le> y \<Longrightarrow> y < x \<Longrightarrow> fits' x \<Longrightarrow> fits' y"
  proof -
    fix x y assume a: "lo \<le> y" "y < x" "fits' x"
    then have "1 \<le> y" "1 \<le> x" using lo by auto
    with a mono show "fits' y" by (auto simp: same)
  qed
  have "\<exists>b st'. search probe lo hi lo st = Some (Inr b, st') \<and>
       ((lo \<le> b \<and> b \<le> hi \<and> fits' b \<and> (\<forall>n. b < n \<and> n \<le> hi \<longrightarrow> \<not> fits' n)) \<or>
        (b = lo \<and> (\<forall>n. lo \<le> n \<and> n \<le> hi \<longrightarrow> \<not> fits' n)))"
  proof (rule search_largest[where fits = fits' and ?lo0.0 = lo and ?hi0.0 = hi])
    show "\<And>x y. lo \<le> y \<Longrightarrow> y < x \<Longrightarrow> fits' x \<Longrightarrow> fits' y" by (rule mono')
    show "\<And>n st. fst (probe n st) = Inr (fits' n)" by (rule pure)
    show "hi < 9007199254740992" by (rule safe)
    show "1 \<le> lo" by (rule lo)
    show "hi \<le> hi" by simp
    show "\<forall>n. hi < n \<and> n \<le> hi \<longrightarrow> \<not> fits' n" by auto
    show "lo = lo \<and> lo = lo \<or> lo = lo - 1 \<and> lo \<le> lo \<and> lo \<le> hi \<and> fits' lo \<and> lo \<le> hi + 1"
      by simp
  qed
  then obtain b st' where b: "search probe lo hi lo st = Some (Inr b, st')"
    and post: "(lo \<le> b \<and> b \<le> hi \<and> fits' b \<and> (\<forall>n. b < n \<and> n \<le> hi \<longrightarrow> \<not> fits' n)) \<or>
        (b = lo \<and> (\<forall>n. lo \<le> n \<and> n \<le> hi \<longrightarrow> \<not> fits' n))"
    by blast
  have "if \<exists>n. lo \<le> n \<and> n \<le> hi \<and> fits n
            then lo \<le> b \<and> b \<le> hi \<and> fits b \<and>
                 (\<forall>n. b < n \<and> n \<le> hi \<longrightarrow> \<not> fits n)
            else b = lo"
  proof (cases "\<exists>n. lo \<le> n \<and> n \<le> hi \<and> fits n")
    case True
    then obtain n where n: "lo \<le> n" "n \<le> hi" "fits n" by blast
    then have "fits' n" using lo same[of n] by simp
    with post n have p: "lo \<le> b \<and> b \<le> hi \<and> fits' b \<and> (\<forall>n. b < n \<and> n \<le> hi \<longrightarrow> \<not> fits' n)"
      by blast
    then have "1 \<le> b" using lo by simp
    have "\<not> fits m" if "b < m \<and> m \<le> hi" for m
    proof -
      have "1 \<le> m" using that \<open>1 \<le> b\<close> by simp
      then show ?thesis using p that same[of m] by blast
    qed
    with p same[OF \<open>1 \<le> b\<close>] True show ?thesis by auto
  next
    case False
    have "\<not> (lo \<le> b \<and> b \<le> hi \<and> fits' b)"
    proof
      assume a: "lo \<le> b \<and> b \<le> hi \<and> fits' b"
      then have "fits b" using same[of b] lo by simp
      with a False show False by blast
    qed
    with post False show ?thesis by auto
  qed
  with b show ?thesis by simp
qed

text \<open>
  Claim C2, as amended: when the fit oracle never throws and is monotone (a size
  that fits makes every smaller size fit) and \<open>\<lfloor>maxPx\<rfloor>\<close> is below \<open>2 ^ 53\<close>, the
  loop started from \<open>lo = max 1 \<lfloor>minPx\<rfloor>\<close>, \<open>hi = \<lfloor>maxPx\<rfloor>\<close>, \<open>best = lo\<close> returns,
  and its final \<open>best\<close> is the largest size of the range that fits, or the initial
  \<open>lo\<close> when no size of the range fits. The oracle is only needed at the sizes a
  font can have, \<open>1\<close> and above.
\<close>

theorem search_finds_largest_fit:
  assumes total: "\<forall>n. 1 \<le> n \<longrightarrow> fitAt v L n = Inr (fits n)"
    and mono: "\<forall>x y. 1 \<le> y \<and> y < x \<and> fits x \<longrightarrow> fits y"
    and safe: "\<lfloor>max_px\<rfloor> < 9007199254740992"
  shows "\<exists>best. map_option fst (searchLoop v L min_px max_px s) = Some (Inr best) \<and>
           (if \<exists>n. max 1 \<lfloor>min_px\<rfloor> \<le> n \<and> n \<le> \<lfloor>max_px\<rfloor> \<and> fits n
            then max 1 \<lfloor>min_px\<rfloor> \<le> best \<and> best \<le> \<lfloor>max_px\<rfloor> \<and> fits best \<and>
                 (\<forall>n. best < n \<and> n \<le> \<lfloor>max_px\<rfloor> \<longrightarrow> \<not> fits n)
            else best = max 1 \<lfloor>min_px\<rfloor>)"
proof (cases v)
  case InPlace
  obtain st where st: "searchLoop_inplace L min_px max_px s =
     search (probe_inplace L) (max 1 \<lfloor>min_px\<rfloor>) \<lfloor>max_px\<rfloor> (max 1 \<lfloor>min_px\<rfloor>) st"
    using searchLoop_inplace_search by blast
  have "fst (probe_inplace L n st) = fitAt v L (max 1 n)" for n st
    using probe_inplace_fst InPlace by simp
  from search_with_oracle[of "probe_inplace L" v L fits "max 1 \<lfloor>min_px\<rfloor>" "\<lfloor>max_px\<rfloor>" st,
      OF this total mono _ safe]
  show ?thesis using st InPlace by (simp add: searchLoop_def)
next
  case Clone
  obtain st where st: "map_option fst (searchLoop_clone L min_px max_px s) =
     map_option fst (search (probe_clone L (max 0 \<lfloor>rectWidth L\<rfloor>) (clientHeight L))
            (max 1 \<lfloor>min_px\<rfloor>) \<lfloor>max_px\<rfloor> (max 1 \<lfloor>min_px\<rfloor>) st)"
    using searchLoop_clone_search by blast
  have "fst (probe_clone L (max 0 \<lfloor>rectWidth L\<rfloor>) (clientHeight L) n st) = fitAt v L (max 1 n)"
    for n st
    using probe_clone_fst Clone by simp
  from search_with_oracle[of "probe_clone L (max 0 \<lfloor>rectWidth L\<rfloor>) (clientHeight L)" v L fits
      "max 1 \<lfloor>min_px\<rfloor>" "\<lfloor>max_px\<rfloor>" st, OF this total mono _ safe]
  show ?thesis using st Clone by (simp add: searchLoop_def)
qed

theorem search_finds_largest_fit_witness:
  "map_option fst (searchLoop InPlace (page 200 50) 8 100 (fresh InPlace)) = Some (Inr 25) \<and>
   map_option fst (searchLoop Clone (page 200 50) 8 100 (fresh Clone)) = Some (Inr 25)"
proof -
  have mono: "\<forall>x y. 1 \<le> y \<and> y < x \<and> x \<le> (25::int) \<longrightarrow> y \<le> 25" by simp
  have t1: "\<forall>n. 1 \<le> n \<longrightarrow> fitAt InPlace (page 200 50) n = Inr (n \<le> 25)"
    by (auto simp: fitAt_def page_def elementFits_def usedFontPx_def)
  have t2: "\<forall>n. 1 \<le> n \<longrightarrow> fitAt Clone (page 200 50) n = Inr (n \<le> 25)"
    by (auto simp: fitAt_def page_def)
  have safe: "\<lfloor>100::real\<rfloor> < 9007199254740992" by simp
  have ex: "\<exists>n::int. max 1 \<lfloor>8::real\<rfloor> \<le> n \<and> n \<le> \<lfloor>100::real\<rfloor> \<and> n \<le> 25"
    by (rule exI[of _ 25]) simp
  have pick: "b = 25" if "max 1 \<lfloor>8::real\<rfloor> \<le> b \<and> b \<le> \<lfloor>100::real\<rfloor> \<and> b \<le> 25 \<and>
      (\<forall>n. b < n \<and> n \<le> \<lfloor>100::real\<rfloor> \<longrightarrow> \<not> n \<le> 25)" for b :: int
  proof (rule ccontr)
    assume "b \<noteq> 25"
    with that have "b < 25 \<and> (25::int) \<le> \<lfloor>100::real\<rfloor>" by simp
    with that show False by blast
  qed
  from search_finds_largest_fit[OF t1 mono safe, of 8 "fresh InPlace"] ex pick
  have a: "map_option fst (searchLoop InPlace (page 200 50) 8 100 (fresh InPlace)) = Some (Inr 25)"
    by (auto split: if_splits)
  from search_finds_largest_fit[OF t2 mono safe, of 8 "fresh Clone"] ex pick
  have b: "map_option fst (searchLoop Clone (page 200 50) 8 100 (fresh Clone)) = Some (Inr 25)"
    by (auto split: if_splits)
  from a b show ?thesis by simp
qed

text \<open>
  At \<open>hi = 2 ^ 53\<close> with every size fitting, the loop does not return: once \<open>mid\<close>
  reaches \<open>2 ^ 53\<close>, \<open>mid + 1\<close> rounds back to \<open>2 ^ 53\<close> and \<open>lo \<le> hi\<close> holds for ever.
\<close>

lemma search_stuck_aux:
  assumes run: "search probe lo hi best st = Some y"
  shows "\<not> ((\<forall>n st. fst (probe n st) = Inr True) \<and> 1 \<le> lo \<and> lo \<le> 9007199254740992 \<and>
            hi = 9007199254740992)"
proof (rule search.raw_induct[where P = "\<lambda>probe lo hi best st y.
    \<not> ((\<forall>n st. fst (probe n st) = Inr True) \<and> 1 \<le> lo \<and> lo \<le> 9007199254740992 \<and>
            hi = 9007199254740992)", OF _ run])
  fix f :: "(int \<Rightarrow> 'a \<Rightarrow> (js_error + bool) \<times> 'a) \<Rightarrow> int \<Rightarrow> int \<Rightarrow> int \<Rightarrow> 'a
     \<Rightarrow> ((js_error + int) \<times> 'a) option"
  fix probe lo hi best st y
  assume IH: "\<And>probe lo hi best st y. f probe lo hi best st = Some y \<Longrightarrow>
    \<not> ((\<forall>n st. fst (probe n st) = Inr True) \<and> 1 \<le> lo \<and> lo \<le> 9007199254740992 \<and>
            hi = 9007199254740992)"
  assume body: "(if lo \<le> hi then
        (let mid = rnd (lo + hi) div 2 in
         case probe mid st of
           (Inl e, st') \<Rightarrow> Some (Inl e, st')
         | (Inr fits, st') \<Rightarrow>
             if fits then f probe (rnd (mid + 1)) hi mid st'
             else f probe lo (rnd (mid - 1)) best st')
      else Some (Inr best, st)) = Some y"
  show "\<not> ((\<forall>n st. fst (probe n st) = Inr True) \<and> 1 \<le> lo \<and> lo \<le> 9007199254740992 \<and>
            hi = 9007199254740992)"
  proof
    assume a: "(\<forall>n st. fst (probe n st) = Inr True) \<and> 1 \<le> lo \<and> lo \<le> 9007199254740992 \<and>
            hi = 9007199254740992"
    define mid where "mid = rnd (lo + hi) div 2"
    have m: "lo \<le> mid" "mid \<le> 9007199254740992"
      using midpoint_range[of lo hi] a by (simp_all add: mid_def)
    obtain r st1 where p: "probe mid st = (r, st1)" by (cases "probe mid st")
    have r: "r = Inr True" using p a by (metis fst_conv)
    have next_lo: "1 \<le> rnd (mid + 1) \<and> rnd (mid + 1) \<le> 9007199254740992"
    proof (cases "mid = 9007199254740992")
      case True
      then show ?thesis by (simp add: rnd_above)
    next
      case False
      with m have "\<bar>mid + 1\<bar> \<le> 9007199254740992" using a by simp
      from rnd_exact[OF this] m a False show ?thesis by simp
    qed
    from body a p r have "f probe (rnd (mid + 1)) hi mid st1 = Some y"
      by (simp add: mid_def Let_def)
    from IH[OF this] a next_lo show False by simp
  qed
qed

lemma search_never_returns:
  assumes "\<forall>n st. fst (probe n st) = Inr True" and "1 \<le> lo" and "lo \<le> 9007199254740992"
  shows "search probe lo 9007199254740992 best st = None"
proof (cases "search probe lo 9007199254740992 best st")
  case None
  then show ?thesis .
next
  case (Some y)
  from search_stuck_aux[OF Some] assms show ?thesis by simp
qed

text \<open>
  Claim C2 as stated fails: the loop does not always terminate. With a target
  without content, which fits at every size, the default minimum 8 and the maximum
  \<open>2 ^ 53\<close>, the oracle is total and monotone and the loop never returns, in either
  variant.
\<close>

theorem search_never_returns_counterexample:
  "(\<forall>n. fitAt InPlace (blank_page 200 50) n = Inr True) \<and>
   (\<forall>n. fitAt Clone (blank_page 200 50) n = Inr True) \<and>
   searchLoop InPlace (blank_page 200 50) 8 9007199254740992 (fresh InPlace) = None \<and>
   searchLoop Clone (blank_page 200 50) 8 9007199254740992 (fresh Clone) = None"
proof -
  have f1: "\<forall>n. fitAt InPlace (blank_page 200 50) n = Inr True"
    by (simp add: fitAt_def blank_page_def elementFits_def usedFontPx_def)
  have f2: "\<forall>n. fitAt Clone (blank_page 200 50) n = Inr True"
    by (simp add: fitAt_def blank_page_def)
  have p1: "\<forall>n st. fst (probe_inplace (blank_page 200 50) n st) = Inr True"
    using f1 by (simp add: probe_inplace_fst)
  have w: "max 0 \<lfloor>rectWidth (blank_page 200 50)\<rfloor> = 200" "clientHeight (blank_page 200 50) = 50"
    by (simp_all add: blank_page_def)
  have p2: "\<forall>n st. fst (probe_clone (blank_page 200 50) 200 50 n st) = Inr True"
    using f2 probe_clone_fst[of "blank_page 200 50"] by (simp add: w)
  have a: "searchLoop InPlace (blank_page 200 50) 8 9007199254740992 (fresh InPlace) = None"
    using search_never_returns[OF p1, of 8]
    by (simp add: searchLoop_def searchLoop_inplace_def Let_def)
  have b: "searchLoop Clone (blank_page 200 50) 8 9007199254740992 (fresh Clone) = None"
    using search_never_returns[OF p2, of 8]
    by (simp add: searchLoop_def searchLoop_clone_def makeMeasureBox_def cloneForMeasure_def
        Let_def w)
  from f1 f2 a b show ?thesis by simp
qed

section \<open>Containers without area\<close>

text \<open>
  Claim C3: when the container's client width or client height is at most 0,
  \<^verbatim>\<open>computeBestFontSize\<close> returns exactly the minimum it was given and leaves the
  state as it was: the target keeps its size, no box or clone is created, and the
  trace of probes is unchanged.
\<close>

theorem zero_area_returns_minimum:
  "clientWidth L \<le> 0 \<or> clientHeight L \<le> 0 \<Longrightarrow>
   computeBestFontSize v L min_px max_px s = Some (Inr min_px, s)"
  by (cases v)
    (simp_all add: computeBestFontSize_def computeBestFontSize_inplace_def
      computeBestFontSize_clone_def)

theorem zero_area_returns_minimum_witness:
  "computeBestFontSize InPlace (page 0 50) 8 512 (fresh InPlace) = Some (Inr 8, fresh InPlace) \<and>
   computeBestFontSize Clone (page 200 0) 8 512 (fresh Clone) = Some (Inr 8, fresh Clone)"
  using zero_area_returns_minimum[of "page 0 50" InPlace 8 512 "fresh InPlace"]
    zero_area_returns_minimum[of "page 200 0" Clone 8 512 "fresh Clone"]
  by (simp add: page_def)

section \<open>The recorded size and the applied size\<close>

text \<open>
  In the clone variant, with an integer minimum of at least 1 and a maximum below
  \<open>2 ^ 53\<close>, a refit returns, and when it completes it records the very number of
  pixels it applies.
\<close>

lemma refit_clone_marker_matches:
  assumes "\<not> busy s" and "minPx (opts s) = of_int mn" and "1 \<le> mn"
    and "maxPx (opts s) < 9007199254740992"
  shows "\<exists>r s'. refit Clone L s = Some (r, s') \<and>
     (r = None \<longrightarrow> map_option of_int (fontSize (target s')) = fittedFontPx (target s'))"
proof -
  have fl: "\<lfloor>maxPx (opts s)\<rfloor> < 9007199254740992" using assms(4) by linarith
  from searchLoop_safe_returns[OF fl, of Clone L "minPx (opts s)" s]
  obtain x where x: "map_option fst (searchLoop Clone L (minPx (opts s)) (maxPx (opts s)) s) = Some x"
    and b: "\<forall>b. x = Inr b \<longrightarrow> max 1 \<lfloor>minPx (opts s)\<rfloor> \<le> b" by auto
  show ?thesis
  proof (cases "map_option fst (computeBestFontSize Clone L (minPx (opts s)) (maxPx (opts s)) s)")
    case None
    with x show ?thesis by (simp add: computeBestFontSize_fst split: if_splits)
  next
    case (Some res)
    show ?thesis
    proof (cases res)
      case (Inl e)
      from refit_failure[OF assms(1) Some[unfolded Inl]] show ?thesis by auto
    next
      case (Inr best)
      have "\<exists>k::int. 1 \<le> k \<and> best = of_int k"
      proof (cases "clientWidth L \<le> 0 \<or> clientHeight L \<le> 0")
        case True
        with Some Inr assms(2,3) show ?thesis by (auto simp: computeBestFontSize_fst)
      next
        case False
        with Some Inr x obtain k where "x = Inr k" "best = of_int k"
          by (cases x) (auto simp: computeBestFontSize_fst returned_def)
        with b show ?thesis by auto
      qed
      then obtain k :: int where k: "1 \<le> k" "best = of_int k" by blast
      from refit_success[OF assms(1) Some[unfolded Inr]] k show ?thesis by auto
    qed
  qed
qed

text \<open>
  Claim C4: after every successful refit, the number recorded in
  \<^verbatim>\<open>dataset.fittedFontPx\<close> equals the number applied to the target's font size.
  \<^verbatim>\<open>refit\<close> applies \<open>max 1 \<lfloor>best\<rfloor>\<close> and records \<open>best\<close> itself, and the in-place
  variant's \<open>best\<close> is the search result less 10. With the default options, a 200 by
  16 container and content that is \<open>3 * n\<close> by \<open>2 * n\<close> at \<open>n\<close> pixels, the search
  ends at 8, the function returns \<open>- 2\<close>, the refit completes, the target is set to
  1 pixel and the attribute records \<open>- 2\<close>.
\<close>

theorem inplace_marker_differs_from_applied_size:
  "map_option (\<lambda>(r, s'). (r, fontSize (target s'), fittedFontPx (target s')))
     (refit InPlace (page 200 16) (fresh InPlace)) = Some (None, Some 1, Some (- 2))"
  by (simp add: refit_unfold refit_enter_def refit_leave_def computeBestFontSize_def
      computeBestFontSize_inplace_def
      searchLoop_inplace_def page_def fresh_def defaults_def search.simps probe_inplace_def
      elementFits_def setFontSizePx_def usedFontPx_def Let_def rnd_exact)

section \<open>Options and preconditions of the entry point\<close>

text \<open>
  Claim C5, as amended: \<^verbatim>\<open>fitFontToContainer\<close> merges the caller's options over the
  defaults \<open>minPx = 8\<close>, \<open>maxPx = 512\<close>, \<open>observeMutations\<close> and \<open>observeResize\<close>
  true, \<open>debounceMs = 100\<close> and, in the clone variant only, \<open>refitOnFontLoad\<close> true:
  an option supplied under the name the script reads (\<open>minPx\<close>, \<open>maxPx\<close>,
  \<open>observeResize\<close>, \<open>observeMutations\<close>, \<open>debounceMs\<close>, \<open>refitOnFontLoad\<close>)
  overrides its default and an omitted one takes it. A property under any other
  name is copied into the merged object and changes none of these.
\<close>

theorem options_merged_over_defaults:
  "(case fitFontToContainer v h (Some tgt) (Some cont) opt of
      Inl e \<Rightarrow> False
    | Inr s \<Rightarrow> opts s = object_assign (defaults v) opt) \<and>
   minPx (object_assign (defaults v) opt) = (case o_minPx opt of None \<Rightarrow> 8 | Some x \<Rightarrow> x) \<and>
   maxPx (object_assign (defaults v) opt) = (case o_maxPx opt of None \<Rightarrow> 512 | Some x \<Rightarrow> x) \<and>
   observeResize (object_assign (defaults v) opt) =
     (case o_observeResize opt of None \<Rightarrow> True | Some b \<Rightarrow> b) \<and>
   observeMutations (object_assign (defaults v) opt) =
     (case o_observeMutations opt of None \<Rightarrow> True | Some b \<Rightarrow> b) \<and>
   debounceMs (object_assign (defaults v) opt) =
     (case o_debounceMs opt of None \<Rightarrow> 100 | Some x \<Rightarrow> x) \<and>
   refitOnFontLoad (object_assign (defaults Clone) opt) =
     (case o_refitOnFontLoad opt of None \<Rightarrow> Some True | Some b \<Rightarrow> Some b) \<and>
   refitOnFontLoad (object_assign (defaults InPlace) opt) = o_refitOnFontLoad opt \<and>
   extra (object_assign (defaults v) opt) = o_extra opt"
  by (simp add: fitFontToContainer_def object_assign_def defaults_def Let_def
      split: option.splits)

text \<open>
  Claim C5 as stated fails for the names it gives: a caller who supplies
  \<open>minSize\<close>, \<open>maxSize\<close>, \<open>observeContainerResize\<close> and \<open>observeContentMutation\<close>
  overrides nothing. The merged object holds the properties under those names, and
  the script goes on with \<open>minPx = 8\<close>, \<open>maxPx = 512\<close> and both observers enabled.
\<close>

theorem renamed_options_counterexample:
  "map_sum id (\<lambda>s. (minPx (opts s), maxPx (opts s), observeResize (opts s),
        observeMutations (opts s), extra (opts s) ''minSize''))
     (fitFontToContainer Clone browser (Some plain_element) (Some plain_element)
        (no_options\<lparr>o_extra := [''minSize'' \<mapsto> Num 20, ''maxSize'' \<mapsto> Num 40,
           ''observeContainerResize'' \<mapsto> Bool False,
           ''observeContentMutation'' \<mapsto> Bool False]\<rparr>)) =
   Inr (8, 512, True, True, Some (Num 20))"
  by (simp add: fitFontToContainer_def browser_def no_options_def
      object_assign_def defaults_def Let_def)

text \<open>
  Claim C6: \<^verbatim>\<open>fitFontToContainer\<close> throws exactly when the target or the container
  is missing. The thrown error is the only result then: no session, hence no
  observer, listener or scheduled refit, comes into being. When it does return a
  session, the target is still as it was passed in and no layout work has been done.
\<close>

theorem fitFontToContainer_throws_iff_missing:
  "(isl (fitFontToContainer v h targetEl containerEl opt) \<longleftrightarrow>
      targetEl = None \<or> containerEl = None) \<and>
   (case fitFontToContainer v h targetEl containerEl opt of
      Inl e \<Rightarrow> e = Error ''fitFontToContainer: target and container elements are required''
    | Inr s \<Rightarrow> targetEl = Some (target s) \<and> body s = [] \<and> trace s = [] \<and> timer s = None \<and>
               \<not> busy s \<and> raf s)"
  by (cases targetEl; cases containerEl) (simp_all add: fitFontToContainer_def Let_def)

text \<open>
  \<open>fresh v\<close> is the session that the entry point returns in a browser with every
  observer interface, for a target without inline styles and no options.
\<close>

lemma fresh_is_returned:
  "fitFontToContainer v browser (Some plain_element) (Some plain_element) no_options =
     Inr (fresh v)"
  by (cases v)
    (simp_all add: fitFontToContainer_def browser_def no_options_def fresh_def
      object_assign_def defaults_def Let_def)

section \<open>Exceptions and the busy flag\<close>

text \<open>
  Claim C7: when the measurement inside \<^verbatim>\<open>refit\<close> throws, the exception leaves
  \<^verbatim>\<open>refit\<close>, the busy flag is false afterwards, and a later refit runs a full cycle
  again: if its measurement succeeds, it applies and records the size found.
\<close>

theorem refit_error_propagates:
  assumes "\<not> busy s"
    and "map_option fst (computeBestFontSize v L (minPx (opts s)) (maxPx (opts s)) s) =
           Some (Inl e)"
  shows "\<exists>s'. refit v L s = Some (Some e, s') \<and> \<not> busy s' \<and>
     (\<forall>L' best.
        map_option fst (computeBestFontSize v L' (minPx (opts s')) (maxPx (opts s')) s') =
          Some (Inr best) \<longrightarrow>
        (\<exists>s''. refit v L' s' = Some (None, s'') \<and>
           fontSize (target s'') = Some (max 1 \<lfloor>best\<rfloor>) \<and>
           fittedFontPx (target s'') = Some best))"
proof -
  from refit_failure[OF assms] obtain s' where a: "refit v L s = Some (Some e, s')"
    and b: "\<not> busy s'" by blast
  have "\<exists>s''. refit v L' s' = Some (None, s'') \<and>
           fontSize (target s'') = Some (max 1 \<lfloor>best\<rfloor>) \<and>
           fittedFontPx (target s'') = Some best"
    if "map_option fst (computeBestFontSize v L' (minPx (opts s')) (maxPx (opts s')) s') =
          Some (Inr best)" for L' best
    using refit_success[OF b that] by blast
  with a b show ?thesis by blast
qed

theorem refit_error_propagates_witness:
  "map_option (\<lambda>(r, s'). (r, busy s')) (refit Clone (broken_page 200 50 38) (fresh Clone)) =
     Some (Some (Error ''layout''), False) \<and>
   map_option (\<lambda>(r, s'). (r, busy s')) (refit InPlace (broken_page 200 50 38) (fresh InPlace)) =
     Some (Some (Error ''layout''), False) \<and>
   Option.bind (refit Clone (broken_page 200 50 38) (fresh Clone))
     (\<lambda>(r, s'). map_option (\<lambda>(r', s''). (r', fittedFontPx (target s'')))
        (refit Clone (page 200 50) s')) = Some (None, Some 25)"
proof -
  have nb: "\<not> busy (fresh v)" for v by (simp add: fresh_def)
  have c: "map_option fst (computeBestFontSize Clone (broken_page 200 50 38)
      (minPx (opts (fresh Clone))) (maxPx (opts (fresh Clone))) (fresh Clone)) =
      Some (Inl (Error ''layout''))"
    by (simp add: computeBestFontSize_def computeBestFontSize_clone_def searchLoop_clone_def
      makeMeasureBox_def cloneForMeasure_def probe_clone_def broken_page_def fresh_def
      defaults_def search.simps setFontSizePx_def usedFontPx_def Let_def rnd_exact)
  have i: "map_option fst (computeBestFontSize InPlace (broken_page 200 50 38)
      (minPx (opts (fresh InPlace))) (maxPx (opts (fresh InPlace))) (fresh InPlace)) =
      Some (Inl (Error ''layout''))"
    by (simp add: computeBestFontSize_def computeBestFontSize_inplace_def searchLoop_inplace_def
      probe_inplace_def elementFits_def broken_page_def fresh_def
      defaults_def search.simps setFontSizePx_def usedFontPx_def Let_def rnd_exact)
  from refit_error_propagates[OF nb i] obtain si
    where ri: "refit InPlace (broken_page 200 50 38) (fresh InPlace) =
        Some (Some (Error ''layout''), si)" and bi: "\<not> busy si" by blast
  from refit_error_propagates[OF nb c] obtain s1
    where r1: "refit Clone (broken_page 200 50 38) (fresh Clone) =
        Some (Some (Error ''layout''), s1)" and b1: "\<not> busy s1"
      and again: "\<forall>L' best.
        map_option fst (computeBestFontSize Clone L' (minPx (opts s1)) (maxPx (opts s1)) s1) =
          Some (Inr best) \<longrightarrow>
        (\<exists>s''. refit Clone L' s1 = Some (None, s'') \<and>
           fontSize (target s'') = Some (max 1 \<lfloor>best\<rfloor>) \<and>
           fittedFontPx (target s'') = Some best)" by blast
  have o: "opts s1 = defaults Clone"
    using refit_failure[OF nb c] r1 by (auto simp: fresh_def)
  have "map_option fst (computeBestFontSize Clone (page 200 50) (minPx (opts s1))
        (maxPx (opts s1)) s1)
      = map_option fst (computeBestFontSize Clone (page 200 50) 8 512 (fresh Clone))"
    using computeBestFontSize_fst_state[of Clone "page 200 50" 8 512 s1 "fresh Clone"]
    by (simp add: o defaults_def)
  also have "\<dots> = Some (Inr 25)"
    by (simp add: computeBestFontSize_def computeBestFontSize_clone_def searchLoop_clone_def
      makeMeasureBox_def cloneForMeasure_def probe_clone_def page_def fresh_def
      defaults_def search.simps setFontSizePx_def usedFontPx_def Let_def rnd_exact)
  finally obtain s2 where "refit Clone (page 200 50) s1 = Some (None, s2)"
    "fittedFontPx (target s2) = Some 25"
    using again by blast
  with r1 b1 ri bi show ?thesis by simp
qed

text \<open>The measurement does not depend on whether a layout read calls back.\<close>

lemma computeBestFontSize_reentrant:
  "computeBestFontSize v (L\<lparr>reentrant := b\<rparr>) min_px max_px s =
   computeBestFontSize v L min_px max_px s"
proof -
  have u: "usedFontPx (L\<lparr>reentrant := b\<rparr>) el = usedFontPx L el" for el
    by (simp add: usedFontPx_def split: option.splits)
  have e: "elementFits (L\<lparr>reentrant := b\<rparr>) el = elementFits L el" for el
    by (simp add: elementFits_def u split: sum.splits)
  have "probe_inplace (L\<lparr>reentrant := b\<rparr>) n st = probe_inplace L n st" for n st
    by (simp add: probe_inplace_def u e Let_def split: sum.splits)
  then have p1: "probe_inplace (L\<lparr>reentrant := b\<rparr>) = probe_inplace L"
    by (intro ext)
  have "probe_clone (L\<lparr>reentrant := b\<rparr>) w ch n st = probe_clone L w ch n st" for w ch n st
    by (simp add: probe_clone_def u Let_def split: sum.splits)
  then have p2: "probe_clone (L\<lparr>reentrant := b\<rparr>) = probe_clone L"
    by (intro ext)
  show ?thesis
    by (cases v)
      (simp_all add: computeBestFontSize_def computeBestFontSize_inplace_def
        computeBestFontSize_clone_def searchLoop_inplace_def searchLoop_clone_def
        makeMeasureBox_def cloneForMeasure_def p1 p2)
qed

text \<open>
  Claim C8: a call of \<^verbatim>\<open>refit\<close> while the busy flag is set returns at once and
  changes nothing, so no second cycle starts inside a running one. A refit whose
  measurement calls \<^verbatim>\<open>refit\<close> again does exactly what it does without the nested
  call, and it returns whenever its measurement does. With the ghost counters: from
  a state where the count of cycles in progress agrees with the flag and has never
  exceeded 1, every operation of the session, a refit with a nested call included,
  ends in such a state.
\<close>

theorem refit_busy_guard:
  "(busy s \<longrightarrow> refit v L s = Some (None, s)) \<and>
   refit v (L\<lparr>reentrant := True\<rparr>) s = refit v (L\<lparr>reentrant := False\<rparr>) s \<and>
   (refit v L s = None \<longleftrightarrow>
      \<not> busy s \<and> computeBestFontSize v L (minPx (opts s)) (maxPx (opts s)) s = None) \<and>
   (cycles_ok s \<and> peak s \<le> 1 \<longrightarrow>
      (\<forall>r s'. refit v L s = Some (r, s') \<longrightarrow> cycles_ok s' \<and> peak s' \<le> 1) \<and>
      (\<forall>r s'. fire v L ev s = Some (r, s') \<longrightarrow> cycles_ok s' \<and> peak s' \<le> 1) \<and>
      cycles_ok (disconnect s) \<and> peak (disconnect s) \<le> 1)"
proof -
  define ok where "ok t \<longleftrightarrow> cycles_ok t \<and> peak t \<le> 1" for t
  have nested: "refit v (L\<lparr>reentrant := True\<rparr>) s = refit v (L\<lparr>reentrant := False\<rparr>) s"
    by (simp add: refit_unfold computeBestFontSize_reentrant cong: option.case_cong)
  have total: "refit v L s = None \<longleftrightarrow>
      \<not> busy s \<and> computeBestFontSize v L (minPx (opts s)) (maxPx (opts s)) s = None"
  proof (cases "busy s")
    case True
    then show ?thesis by (simp add: refit_busy)
  next
    case False
    from refit_outcome[OF False, of v L] False show ?thesis
      by (cases "computeBestFontSize v L (minPx (opts s)) (maxPx (opts s)) s")
        (auto split: sum.splits)
  qed
  have inv_refit: "ok t'" if "ok t" "refit v L t = Some (r, t')" for t r t'
  proof (cases "busy t")
    case True
    with that show ?thesis by (simp add: refit_busy)
  next
    case False
    from refit_outcome[OF False, of v L] that False show ?thesis
      by (cases "map_option fst (computeBestFontSize v L (minPx (opts t)) (maxPx (opts t)) t)")
        (auto simp: ok_def cycles_ok_def control_def refit_leave_def split: sum.splits)
  qed
  have upd: "ok (t\<lparr>timer := x\<rparr>)" "ok (t\<lparr>raf := y\<rparr>)"
    "ok (debounced t)" "ok (debounced (t\<lparr>fontsThen := z\<rparr>))"
    if "ok t" for t x y z
    using that by (simp_all add: ok_def cycles_ok_def debounced_def)
  have inv_fire: "ok s'" if ok: "ok s" and f: "fire v L ev s = Some (r, s')"
    for r s'
  proof (cases ev)
    case TimerFired
    show ?thesis
    proof (cases "timer s")
      case None
      with f TimerFired ok show ?thesis by (simp add: fire_def)
    next
      case (Some d)
      with f TimerFired have "refit v L (s\<lparr>timer := None\<rparr>) = Some (r, s')"
        by (simp add: fire_def)
      from inv_refit[OF upd(1)[OF ok] this] show ?thesis .
    qed
  next
    case AnimationFrame
    show ?thesis
    proof (cases "raf s")
      case False
      with f AnimationFrame ok show ?thesis by (simp add: fire_def)
    next
      case True
      with f AnimationFrame have "refit v L (s\<lparr>raf := False\<rparr>) = Some (r, s')"
        by (simp add: fire_def)
      from inv_refit[OF upd(2)[OF ok] this] show ?thesis .
    qed
  qed (use f ok upd in \<open>auto simp: fire_def split: if_splits\<close>)
  have "ok s \<Longrightarrow> ok (disconnect s)"
    by (simp add: ok_def cycles_ok_def disconnect_def)
  then show ?thesis using nested total inv_refit inv_fire refit_busy[of s v L]
    unfolding ok_def by blast
qed

theorem refit_busy_guard_witness:
  "refit Clone (page 200 50) ((fresh Clone)\<lparr>busy := True, inProgress := 1\<rparr>) =
     Some (None, (fresh Clone)\<lparr>busy := True, inProgress := 1\<rparr>) \<and>
   map_option (\<lambda>(r, s'). (r, busy s', inProgress s', peak s', fontSize (target s')))
     (refit InPlace ((page 200 50)\<lparr>reentrant := True\<rparr>) (fresh InPlace)) =
     Some (None, False, 0, 1, Some 15) \<and>
   map_option (\<lambda>(r, s'). (r, busy s', inProgress s', peak s', fontSize (target s')))
     (refit Clone ((page 200 50)\<lparr>reentrant := True\<rparr>) (fresh Clone)) =
     Some (None, False, 0, 1, Some 25)"
proof -
  have b: "busy ((fresh v)\<lparr>busy := True, inProgress := 1\<rparr>)" for v by simp
  from refit_busy_guard[of "(fresh Clone)\<lparr>busy := True, inProgress := 1\<rparr>" Clone "page 200 50"] b
  have 1: "refit Clone (page 200 50) ((fresh Clone)\<lparr>busy := True, inProgress := 1\<rparr>) =
     Some (None, (fresh Clone)\<lparr>busy := True, inProgress := 1\<rparr>)" by blast
  have p: "(page 200 50)\<lparr>reentrant := False\<rparr> = page 200 50" by (simp add: page_def)
  from refit_busy_guard[of "fresh InPlace" InPlace "page 200 50"]
  have "refit InPlace ((page 200 50)\<lparr>reentrant := True\<rparr>) (fresh InPlace) =
      refit InPlace (page 200 50) (fresh InPlace)" by (simp only: p)
  also have "map_option (\<lambda>(r, s'). (r, busy s', inProgress s', peak s', fontSize (target s')))
      (refit InPlace (page 200 50) (fresh InPlace)) = Some (None, False, 0, 1, Some 15)"
    by (simp add: refit_unfold refit_enter_def refit_leave_def computeBestFontSize_def
      computeBestFontSize_inplace_def
      searchLoop_inplace_def page_def fresh_def defaults_def search.simps probe_inplace_def
      elementFits_def setFontSizePx_def usedFontPx_def Let_def rnd_exact)
  finally have 2: "map_option (\<lambda>(r, s'). (r, busy s', inProgress s', peak s', fontSize (target s')))
     (refit InPlace ((page 200 50)\<lparr>reentrant := True\<rparr>) (fresh InPlace)) =
     Some (None, False, 0, 1, Some 15)" .
  from refit_busy_guard[of "fresh Clone" Clone "page 200 50"]
  have "refit Clone ((page 200 50)\<lparr>reentrant := True\<rparr>) (fresh Clone) =
      refit Clone (page 200 50) (fresh Clone)" by (simp only: p)
  also have "map_option (\<lambda>(r, s'). (r, busy s', inProgress s', peak s', fontSize (target s')))
      (refit Clone (page 200 50) (fresh Clone)) = Some (None, False, 0, 1, Some 25)"
    by (simp add: refit_unfold refit_enter_def refit_leave_def computeBestFontSize_def
      computeBestFontSize_clone_def searchLoop_clone_def
      makeMeasureBox_def cloneForMeasure_def probe_clone_def
      page_def fresh_def defaults_def search.simps
      setFontSizePx_def usedFontPx_def Let_def rnd_exact)
  finally have 3: "map_option (\<lambda>(r, s'). (r, busy s', inProgress s', peak s', fontSize (target s')))
     (refit Clone ((page 200 50)\<lparr>reentrant := True\<rparr>) (fresh Clone)) =
     Some (None, False, 0, 1, Some 25)" .
  from 1 2 3 show ?thesis by simp
qed

section \<open>Disconnecting\<close>

text \<open>
  Claim C9, as amended: \<^verbatim>\<open>disconnect\<close> is idempotent and unsubscribes the resize
  observer, the mutation observer and the window's resize listener, so that after
  it a resize of the container, a resize of the window or a mutation of the content
  schedules nothing and leaves the session as it is. It leaves the target alone, and
  it does not cancel what is already scheduled: the debounce timeout, the animation
  frame of the first refit and the font-load continuation stay pending.
\<close>

theorem disconnect_unsubscribes:
  "disconnect (disconnect s) = disconnect s \<and>
   ro (disconnect s) \<noteq> Observing \<and> mo (disconnect s) \<noteq> Observing \<and>
   winResize (disconnect s) = False \<and>
   fire v L ResizeObserved (disconnect s) = Some (None, disconnect s) \<and>
   fire v L WindowResize (disconnect s) = Some (None, disconnect s) \<and>
   fire v L MutationObserved (disconnect s) = Some (None, disconnect s) \<and>
   target (disconnect s) = target s \<and>
   timer (disconnect s) = timer s \<and> raf (disconnect s) = raf s \<and>
   fontsThen (disconnect s) = fontsThen s"
  by (cases "ro s"; cases "mo s") (simp_all add: disconnect_def disconnect_observer_def fire_def)

text \<open>
  Claim C9 as stated fails: \<^verbatim>\<open>disconnect\<close> does not cancel the effect of a pending
  debounced call. A resize is observed, which sets the timeout of 100 ms and leaves
  the font size unset; the session is disconnected; the timeout fires and the
  refit sets the target's font size to 25 pixels.
\<close>

theorem disconnect_leaves_timer_counterexample:
  "map_option (\<lambda>(r, s'). (timer s', fontSize (target s')))
     (fire Clone (page 200 50) ResizeObserved (fresh Clone)) = Some (Some 100, None) \<and>
   Option.bind (fire Clone (page 200 50) ResizeObserved (fresh Clone))
     (\<lambda>(r, s'). map_option (\<lambda>(r', s''). (r', fontSize (target s'')))
        (fire Clone (page 200 50) TimerFired (disconnect s'))) = Some (None, Some 25)"
  by (simp add: fire_def disconnect_def debounced_def disconnect_observer_def
      refit_unfold refit_enter_def refit_leave_def
      computeBestFontSize_def computeBestFontSize_clone_def searchLoop_clone_def
      makeMeasureBox_def cloneForMeasure_def probe_clone_def
      page_def fresh_def defaults_def search.simps setFontSizePx_def
      usedFontPx_def Let_def plain_element_def rnd_exact)

text \<open>
  Claim C10: a debounce timeout that is pending when \<^verbatim>\<open>disconnect\<close> is called stays
  pending, and so does the animation frame of the first refit; when either fires,
  \<^verbatim>\<open>refit\<close> runs on the disconnected session, and if the session is idle and the
  measurement succeeds, it sets the target's font size and the recorded size.
\<close>

theorem scheduled_refit_survives_disconnect:
  assumes "(ev = TimerFired \<and> timer s \<noteq> None) \<or> (ev = AnimationFrame \<and> raf s)"
  shows "timer (disconnect s) = timer s \<and> raf (disconnect s) = raf s \<and>
     fire v L ev (disconnect s) =
       refit v L (if ev = TimerFired then (disconnect s)\<lparr>timer := None\<rparr>
                  else (disconnect s)\<lparr>raf := False\<rparr>) \<and>
     (\<not> busy s \<and>
      map_option fst (computeBestFontSize v L (minPx (opts s)) (maxPx (opts s)) s) =
        Some (Inr best) \<longrightarrow>
        (\<exists>s'. fire v L ev (disconnect s) = Some (None, s') \<and>
           fontSize (target s') = Some (max 1 \<lfloor>best\<rfloor>) \<and>
           fittedFontPx (target s') = Some best))"
proof -
  define s' where "s' = (if ev = TimerFired then (disconnect s)\<lparr>timer := None\<rparr>
                  else (disconnect s)\<lparr>raf := False\<rparr>)"
  have keep: "timer (disconnect s) = timer s" "raf (disconnect s) = raf s"
    by (simp_all add: disconnect_def)
  have run: "fire v L ev (disconnect s) = refit v L s'"
    using assms keep by (auto simp: fire_def s'_def)
  have same: "opts s' = opts s" "busy s' = busy s"
    by (simp_all add: s'_def disconnect_def)
  have "\<exists>t. refit v L s' = Some (None, t) \<and>
        fontSize (target t) = Some (max 1 \<lfloor>best\<rfloor>) \<and>
        fittedFontPx (target t) = Some best"
    if nb: "\<not> busy s"
      and ok: "map_option fst (computeBestFontSize v L (minPx (opts s)) (maxPx (opts s)) s) =
        Some (Inr best)"
  proof -
    have a: "\<not> busy s'" using nb same by simp
    have b: "map_option fst (computeBestFontSize v L (minPx (opts s')) (maxPx (opts s')) s') =
        Some (Inr best)"
      using ok computeBestFontSize_fst_state[of v L _ _ s' s] same by simp
    from refit_success[OF a b] show ?thesis by blast
  qed
  with keep run show ?thesis by (simp add: s'_def)
qed

theorem scheduled_refit_survives_disconnect_witness:
  "timer (disconnect (debounced (fresh InPlace))) = Some 100 \<and>
   map_option (\<lambda>(r, s'). (fontSize (target s'), fittedFontPx (target s')))
     (fire InPlace (page 300 40) TimerFired (disconnect (debounced (fresh InPlace)))) =
     Some (Some 10, Some 10) \<and>
   map_option (\<lambda>(r, s'). fontSize (target s'))
     (fire Clone (page 300 40) AnimationFrame (disconnect (fresh Clone))) = Some (Some 20)"
proof -
  have p1: "(TimerFired = TimerFired \<and> timer (debounced (fresh InPlace)) \<noteq> None) \<or>
      (TimerFired = AnimationFrame \<and> raf (debounced (fresh InPlace)))"
    by (simp add: debounced_def)
  have t: "timer (debounced (fresh InPlace)) = Some 100"
    by (simp add: debounced_def fresh_def defaults_def)
  have n1: "\<not> busy (debounced (fresh InPlace))"
    by (simp add: debounced_def fresh_def)
  have c1: "map_option fst (computeBestFontSize InPlace (page 300 40)
      (minPx (opts (debounced (fresh InPlace)))) (maxPx (opts (debounced (fresh InPlace))))
      (debounced (fresh InPlace))) = Some (Inr 10)"
    by (simp add: computeBestFontSize_def computeBestFontSize_inplace_def searchLoop_inplace_def
      page_def defaults_def fresh_def debounced_def search.simps probe_inplace_def
      elementFits_def setFontSizePx_def usedFontPx_def Let_def rnd_exact)
  have p2: "(AnimationFrame = TimerFired \<and> timer (fresh Clone) \<noteq> None) \<or>
      (AnimationFrame = AnimationFrame \<and> raf (fresh Clone))"
    by (simp add: fresh_def)
  have n2: "\<not> busy (fresh Clone)"
    by (simp add: fresh_def)
  have c2: "map_option fst (computeBestFontSize Clone (page 300 40) (minPx (opts (fresh Clone)))
      (maxPx (opts (fresh Clone))) (fresh Clone)) = Some (Inr 20)"
    by (simp add: computeBestFontSize_def computeBestFontSize_clone_def searchLoop_clone_def
      makeMeasureBox_def cloneForMeasure_def probe_clone_def page_def fresh_def
      defaults_def search.simps setFontSizePx_def usedFontPx_def Let_def rnd_exact)
  have f10: "max 1 \<lfloor>10::real\<rfloor> = 10" and f20: "max 1 \<lfloor>20::real\<rfloor> = 20" by simp_all
  note a = scheduled_refit_survives_disconnect[OF p1, of InPlace "page 300 40" 10]
  note b = scheduled_refit_survives_disconnect[OF p2, of Clone "page 300 40" 20]
  have a1: "timer (disconnect (debounced (fresh InPlace))) = Some 100"
    using a t by (simp only:)
  from a n1 c1 obtain sa
    where "fire InPlace (page 300 40) TimerFired (disconnect (debounced (fresh InPlace))) =
        Some (None, sa)" "fontSize (target sa) = Some (max 1 \<lfloor>10::real\<rfloor>)"
      "fittedFontPx (target sa) = Some 10" by blast
  then have a2: "map_option (\<lambda>(r, s'). (fontSize (target s'), fittedFontPx (target s')))
     (fire InPlace (page 300 40) TimerFired (disconnect (debounced (fresh InPlace)))) =
     Some (Some 10, Some 10)" by (simp only: f10 option.map prod.case)
  from b n2 c2 obtain sb
    where "fire Clone (page 300 40) AnimationFrame (disconnect (fresh Clone)) = Some (None, sb)"
      "fontSize (target sb) = Some (max 1 \<lfloor>20::real\<rfloor>)" by blast
  then have b1: "map_option (\<lambda>(r, s'). fontSize (target s'))
     (fire Clone (page 300 40) AnimationFrame (disconnect (fresh Clone))) = Some (Some 20)"
    by (simp only: f20 option.map prod.case)
  from a1 a2 b1 show ?thesis by (simp only: simp_thms)
qed

end
